theory Spec2Isabelle
  imports Main "HOL-Library.Multiset"
begin

section \<open>Identifiers, JSON values and stored documents\<close>

text \<open>
  The document store keeps identifiers as \<open>ObjectId\<close> values; the session carries the
  user's identifier as a plain string (\<open>session.user.id\<close>). The handlers compare the two
  through \<open>toString()\<close>, and a query such as \<open>{ userId: session.user.id }\<close> casts the
  string to an \<open>ObjectId\<close> before it is matched.
\<close>

datatype objectId = ObjectId string

fun toString :: "objectId \<Rightarrow> string" where
  "toString (ObjectId h) = h"

text \<open>
  The identifier in the request path (\<open>req.query.id\<close>) is supplied by the caller. In a
  filter \<open>{ _id: id }\<close> it is cast to an \<open>ObjectId\<close>: a text of 24 hexadecimal digits, in
  either case, denotes the identifier whose \<open>toString()\<close> is the text in lower case; for any
  other text the query throws a \<open>CastError\<close>.
\<close>

definition hex_digit :: "char \<Rightarrow> bool" where
  "hex_digit c \<longleftrightarrow>
     (let k = (of_char c :: nat)
      in (48 \<le> k \<and> k \<le> 57) \<or> (97 \<le> k \<and> k \<le> 102) \<or> (65 \<le> k \<and> k \<le> 70))"

definition lower_hex :: "char \<Rightarrow> char" where
  "lower_hex c =
     (if 65 \<le> (of_char c :: nat) \<and> (of_char c :: nat) \<le> 70 then char_of (of_char c + (32 :: nat))
      else c)"

definition castObjectId :: "string \<Rightarrow> objectId option" where
  "castObjectId s =
     (if length s = 24 \<and> list_all hex_digit s then Some (ObjectId (map lower_hex s)) else None)"

definition cast_error :: "string \<Rightarrow> string" where
  \<open>cast_error i =
     ''Cast to ObjectId failed for value "'' @ i
       @ ''" (type string) at path "_id" for model "Itinerary"''\<close>

text \<open>
  A JSON value. A number keeps its lexeme (no rounding to a binary float is modelled); a
  string value and an object key are lists of UTF-16 code units, since an escape
  \<open>\uXXXX\<close> can denote a unit above 255.
\<close>

datatype json =
    JNull
  | JBool bool
  | JNum string
  | JStr "nat list"
  | JArr "json list"
  | JObj "(nat list \<times> json) list"

text \<open>
  The user record of \<open>models/User\<close>; \<open>user_id\<close> is its \<open>_id\<close> (the credential and the
  avatar play no role here).
\<close>

record user =
  user_id :: objectId
  name :: string
  email :: string

text \<open>
  An itinerary document; \<open>iid\<close> is its \<open>_id\<close>. The three paths that decide access are
  typed; the remaining paths (title, destination, totalDays, budget, interests, days,
  summary) are kept as path/value pairs in \<open>content\<close>. \<open>createdAt\<close> is the creation
  timestamp the listing sorts by.
\<close>

record itinerary =
  iid :: objectId
  userId :: objectId
  collaborators :: "objectId list"
  isPublic :: bool
  content :: "(string \<times> json) list"
  createdAt :: nat

text \<open>
  The store: the two collections, in their natural order. A store operation may throw
  (a cast error, a validation error, a lost connection); the handlers catch that and
  answer 500. \<open>throws n\<close> is the message of the exception raised by the \<open>n\<close>-th store
  operation of the request, if it raises one.
\<close>

record store =
  itineraries :: "itinerary list"
  users :: "user list"

type_synonym faults = "nat \<Rightarrow> string option"

text \<open>
  A request body for an update or a manual creation, after the schema's casting: each
  access path is present or absent, the content paths are the pairs supplied.
\<close>

record body =
  b_userId :: "objectId option"
  b_collaborators :: "objectId list option"
  b_isPublic :: "bool option"
  b_content :: "(string \<times> json) list"

subsection \<open>Replies\<close>

text \<open>
  What the generation handler can throw before it answers 500: the two parse failures of
  the fallback, the \<open>TypeError\<close> of reading a property of null, the two validation
  errors, and the messages of a failed connection, a failed generation call and a failed
  store operation. The reply's message is built from the thrown error.
\<close>

datatype failure =
    ParseFailed
  | NoJsonFound
  | NullPayload
  | MissingDays
  | NoDays
  | Connect string
  | Upstream string
  | Store string

text \<open>
  \<open>populate('userId', 'name email')\<close> and \<open>populate('collaborators', 'name email')\<close>
  replace an identifier by the record of the user it names. In the JSON reply an
  identifier is then either a string (\<open>Reference\<close>) or an object with \<open>_id\<close>, \<open>name\<close>
  and \<open>email\<close> (\<open>Expanded\<close>).
\<close>

datatype collab = Reference string | Expanded "string option" string string

record view =
  v_id :: string
  v_userId :: "collab option"
  v_collaborators :: "collab list"
  v_isPublic :: bool
  v_content :: "(string \<times> json) list"

datatype reply =
    Message string
  | Failed failure
  | Data "view option"
  | DataList "view list"
  | Deleted string

datatype response = Response nat reply

fun status :: "response \<Rightarrow> nat" where
  "status (Response c r) = c"

text \<open>
  Modelled from the spec: the document store's expansion of references (the library and
  the Itinerary schema are not under src/): the owner and the collaborators are resolved
  to display name and email; a collaborator whose user record is gone is left out, an
  owner whose record is gone is null.
\<close>

definition expand :: "user list \<Rightarrow> objectId \<Rightarrow> collab option" where
  "expand us i =
     (case find (\<lambda>u. user_id u = i) us of
        None \<Rightarrow> None
      | Some u \<Rightarrow> Some (Expanded (Some (toString (user_id u))) (name u) (email u)))"

definition populate :: "store \<Rightarrow> itinerary \<Rightarrow> view" where
  "populate st d =
     \<lparr> v_id = toString (iid d),
       v_userId = expand (users st) (userId d),
       v_collaborators = List.map_filter (expand (users st)) (collaborators d),
       v_isPublic = isPublic d,
       v_content = content d \<rparr>"

text \<open>\<open>error.message || 'Server error'\<close>\<close>

definition server_error :: "string \<Rightarrow> response" where
  "server_error m = Response 500 (Message (if m = [] then ''Server error'' else m))"

section \<open>Store operations\<close>

text \<open>\<open>Model.findOne(filter)\<close>: the first document that matches, or null.\<close>

definition findOne :: "string option \<Rightarrow> ('a \<Rightarrow> bool) \<Rightarrow> 'a list \<Rightarrow> string + 'a option" where
  "findOne thrown p ds = (case thrown of Some m \<Rightarrow> Inl m | None \<Rightarrow> Inr (find p ds))"

text \<open>
  Modelled from the spec: the store's atomic field update behind
  \<open>findByIdAndUpdate(id, req.body)\<close> (the library and the Itinerary schema are not under
  src/): whole-or-partial field replacement, every path the body supplies replaces the
  stored one and the others are kept.
\<close>

fun set_path :: "string \<times> json \<Rightarrow> (string \<times> json) list \<Rightarrow> (string \<times> json) list" where
  "set_path (k, v) [] = [(k, v)]"
| "set_path (k, v) ((k', v') # kvs) =
     (if k = k' then (k, v) # kvs else (k', v') # set_path (k, v) kvs)"

definition apply_update :: "body \<Rightarrow> itinerary \<Rightarrow> itinerary" where
  "apply_update b d =
     d \<lparr> userId := (case b_userId b of None \<Rightarrow> userId d | Some v \<Rightarrow> v),
         collaborators := (case b_collaborators b of None \<Rightarrow> collaborators d | Some v \<Rightarrow> v),
         isPublic := (case b_isPublic b of None \<Rightarrow> isPublic d | Some v \<Rightarrow> v),
         content := fold set_path (b_content b) (content d) \<rparr>"

text \<open>The first document with the given \<open>_id\<close> is rewritten, the others are kept.\<close>

fun update_first :: "objectId \<Rightarrow> (itinerary \<Rightarrow> itinerary) \<Rightarrow> itinerary list \<Rightarrow> itinerary list" where
  "update_first i f [] = []"
| "update_first i f (d # ds) = (if iid d = i then f d # ds else d # update_first i f ds)"

fun delete_first :: "objectId \<Rightarrow> itinerary list \<Rightarrow> itinerary list" where
  "delete_first i [] = []"
| "delete_first i (d # ds) = (if iid d = i then ds else d # delete_first i ds)"

definition findByIdAndUpdate ::
  "string option \<Rightarrow> string \<Rightarrow> body \<Rightarrow> store \<Rightarrow> string + (itinerary option \<times> store)" where
  "findByIdAndUpdate thrown i b st =
     (case thrown of
        Some m \<Rightarrow> Inl m
      | None \<Rightarrow>
          (let ds = update_first (ObjectId i) (apply_update b) (itineraries st)
           in Inr (find (\<lambda>d. iid d = ObjectId i) ds, st \<lparr> itineraries := ds \<rparr>)))"

definition findByIdAndDelete :: "string option \<Rightarrow> string \<Rightarrow> store \<Rightarrow> string + store" where
  "findByIdAndDelete thrown i st =
     (case thrown of
        Some m \<Rightarrow> Inl m
      | None \<Rightarrow> Inr (st \<lparr> itineraries := delete_first (ObjectId i) (itineraries st) \<rparr>))"

section \<open>The handler of one itinerary: GET, PUT, DELETE by id\<close>

text \<open>The three filters of \<open>pages/api/itineraries/[id].ts\<close>.\<close>

definition may_read :: "string \<Rightarrow> itinerary \<Rightarrow> bool" where
  "may_read u d \<longleftrightarrow>
     userId d = ObjectId u \<or> ObjectId u \<in> set (collaborators d) \<or> isPublic d"

definition may_update :: "string \<Rightarrow> itinerary \<Rightarrow> bool" where
  "may_update u d \<longleftrightarrow> userId d = ObjectId u \<or> ObjectId u \<in> set (collaborators d)"

definition may_delete :: "string \<Rightarrow> itinerary \<Rightarrow> bool" where
  "may_delete u d \<longleftrightarrow> userId d = ObjectId u"

text \<open>
  The GET branch. The caller's identifier is cast for the filter; when the cast fails, the
  query throws and the handler answers 500 with the message of the error.
\<close>

definition handle_get :: "faults \<Rightarrow> string \<Rightarrow> string \<Rightarrow> store \<Rightarrow> response \<times> store" where
  "handle_get throws u i st =
     (case castObjectId i of
        None \<Rightarrow> (server_error (cast_error i), st)
      | Some oid \<Rightarrow>
          (case findOne (throws 0) (\<lambda>d. iid d = oid \<and> may_read u d) (itineraries st) of
             Inl m \<Rightarrow> (server_error m, st)
           | Inr None \<Rightarrow> (Response 404 (Message ''Itinerary not found''), st)
           | Inr (Some d) \<Rightarrow> (Response 200 (Data (Some (populate st d))), st)))"

text \<open>
  The PUT and DELETE branches. Here the identifier of the path is taken in its canonical
  spelling, 24 digits with the letters in lower case, on which the cast is the identity
  (\<open>castObjectId_canonical\<close> below).
\<close>

definition handle_put :: "faults \<Rightarrow> string \<Rightarrow> string \<Rightarrow> body \<Rightarrow> store \<Rightarrow> response \<times> store" where
  "handle_put throws u i b st =
     (case findOne (throws 0) (\<lambda>d. iid d = ObjectId i \<and> may_update u d) (itineraries st) of
        Inl m \<Rightarrow> (server_error m, st)
      | Inr None \<Rightarrow>
          (Response 404 (Message ''Itinerary not found or you do not have permission''), st)
      | Inr (Some d) \<Rightarrow>
          (case findByIdAndUpdate (throws 1) i b st of
             Inl m \<Rightarrow> (server_error m, st)
           | Inr (d', st') \<Rightarrow> (Response 200 (Data (map_option (populate st') d')), st')))"

definition handle_delete :: "faults \<Rightarrow> string \<Rightarrow> string \<Rightarrow> store \<Rightarrow> response \<times> store" where
  "handle_delete throws u i st =
     (case findOne (throws 0) (\<lambda>d. iid d = ObjectId i \<and> may_delete u d) (itineraries st) of
        Inl m \<Rightarrow> (server_error m, st)
      | Inr None \<Rightarrow>
          (Response 404 (Message ''Itinerary not found or you do not have permission''), st)
      | Inr (Some d) \<Rightarrow>
          (case findByIdAndDelete (throws 1) i st of
             Inl m \<Rightarrow> (server_error m, st)
           | Inr st' \<Rightarrow> (Response 200 (Deleted ''Itinerary deleted successfully''), st')))"

definition itinerary_handler ::
  "faults \<Rightarrow> string option \<Rightarrow> string \<Rightarrow> string \<Rightarrow> body \<Rightarrow> store \<Rightarrow> response \<times> store" where
  "itinerary_handler throws session method i b st =
     (case session of
        None \<Rightarrow> (Response 401 (Message ''Unauthorized''), st)
      | Some u \<Rightarrow>
          if method = ''GET'' then handle_get throws u i st
          else if method = ''PUT'' then handle_put throws u i b st
          else if method = ''DELETE'' then handle_delete throws u i st
          else (Response 405 (Message ''Method not allowed''), st))"

section \<open>The listing and the manual creation\<close>

text \<open>
  \<open>Itinerary.find({ $or: [{ userId }, { collaborators }] }).sort({ createdAt: -1 })\<close>:
  every matching document, newest first.
\<close>

definition listing :: "string \<Rightarrow> store \<Rightarrow> itinerary list" where
  "listing u st =
     rev (sort_key createdAt
       (filter (\<lambda>d. userId d = ObjectId u \<or> ObjectId u \<in> set (collaborators d))
          (itineraries st)))"

definition handle_list :: "faults \<Rightarrow> string \<Rightarrow> store \<Rightarrow> response \<times> store" where
  "handle_list throws u st =
     (case throws 0 of
        Some m \<Rightarrow> (server_error m, st)
      | None \<Rightarrow> (Response 200 (DataList (map (populate st) (listing u st))), st))"

text \<open>A document as the reply carries it when nothing was populated.\<close>

definition plain :: "itinerary \<Rightarrow> view" where
  "plain d =
     \<lparr> v_id = toString (iid d),
       v_userId = Some (Reference (toString (userId d))),
       v_collaborators = map (\<lambda>c. Reference (toString c)) (collaborators d),
       v_isPublic = isPublic d,
       v_content = content d \<rparr>"

text \<open>
  Modelled from the spec: the defaults of the Itinerary schema (\<open>models/Itinerary\<close> is
  not under src/): a document is created with an empty collaborator set and
  \<open>isPublic = false\<close> where the object given to \<open>Itinerary.create\<close> has no such path;
  the owning user identifier is required. \<open>fresh\<close> is the \<open>_id\<close> and \<open>now\<close> the
  timestamp the store assigns.
\<close>

definition Itinerary_create ::
  "string option \<Rightarrow> objectId \<Rightarrow> nat \<Rightarrow> body \<Rightarrow> store \<Rightarrow> string + (itinerary \<times> store)" where
  "Itinerary_create thrown fresh now b st =
     (case thrown of
        Some m \<Rightarrow> Inl m
      | None \<Rightarrow>
          (case b_userId b of
             None \<Rightarrow> Inl ''Itinerary validation failed: userId: Path `userId` is required.''
           | Some owner \<Rightarrow>
               (let d = \<lparr> iid = fresh,
                          userId = owner,
                          collaborators = (case b_collaborators b of None \<Rightarrow> [] | Some cs \<Rightarrow> cs),
                          isPublic = (case b_isPublic b of None \<Rightarrow> False | Some p \<Rightarrow> p),
                          content = fold set_path (b_content b) [],
                          createdAt = now \<rparr>
                in Inr (d, st \<lparr> itineraries := itineraries st @ [d] \<rparr>))))"

text \<open>\<open>Itinerary.create({ ...req.body, userId: session.user.id })\<close>\<close>

definition handle_create ::
  "faults \<Rightarrow> string \<Rightarrow> objectId \<Rightarrow> nat \<Rightarrow> body \<Rightarrow> store \<Rightarrow> response \<times> store" where
  "handle_create throws u fresh now b st =
     (case Itinerary_create (throws 0) fresh now (b \<lparr> b_userId := Some (ObjectId u) \<rparr>) st of
        Inl m \<Rightarrow> (server_error m, st)
      | Inr (d, st') \<Rightarrow> (Response 201 (Data (Some (plain d))), st'))"

definition index_handler ::
  "faults \<Rightarrow> string option \<Rightarrow> string \<Rightarrow> objectId \<Rightarrow> nat \<Rightarrow> body \<Rightarrow> store \<Rightarrow> response \<times> store" where
  "index_handler throws session method fresh now b st =
     (case session of
        None \<Rightarrow> (Response 401 (Message ''Unauthorized''), st)
      | Some u \<Rightarrow>
          if method = ''GET'' then handle_list throws u st
          else if method = ''POST'' then handle_create throws u fresh now b st
          else (Response 405 (Message ''Method not allowed''), st))"

section \<open>The collaborators of an itinerary: POST and DELETE collaborate\<close>

text \<open>\<open>!email\<close>, \<open>!collaboratorId\<close>: an absent or empty string is falsy.\<close>

fun falsy :: "string option \<Rightarrow> bool" where
  "falsy None = True"
| "falsy (Some s) = (s = [])"

text \<open>\<open>itinerary.save()\<close>: the changed document replaces the stored one of the same \<open>_id\<close>.\<close>

definition save :: "string option \<Rightarrow> itinerary \<Rightarrow> store \<Rightarrow> string + store" where
  "save thrown d st =
     (case thrown of
        Some m \<Rightarrow> Inl m
      | None \<Rightarrow> Inr (st \<lparr> itineraries := update_first (iid d) (\<lambda>_. d) (itineraries st) \<rparr>))"

text \<open>\<open>Itinerary.findById(id).populate(...)\<close> and the reply built from it.\<close>

definition reply_updated :: "string option \<Rightarrow> string \<Rightarrow> store \<Rightarrow> response" where
  "reply_updated thrown i st =
     (case findOne thrown (\<lambda>d. iid d = ObjectId i) (itineraries st) of
        Inl m \<Rightarrow> server_error m
      | Inr d \<Rightarrow> Response 200 (Data (map_option (populate st) d)))"

text \<open>
  \<open>itinerary.collaborators.some((id) => id.toString() === collaborator._id.toString())\<close>
\<close>

definition already_collaborator :: "objectId list \<Rightarrow> user \<Rightarrow> bool" where
  "already_collaborator cs c = list_ex (\<lambda>x. toString x = toString (user_id c)) cs"

text \<open>
  \<open>toLowerCase()\<close> on code units below 256: the letters A to Z and the accented capitals
  of Latin-1 move to their small forms.
\<close>

definition lower_char :: "char \<Rightarrow> char" where
  "lower_char c =
     (let k = (of_char c :: nat)
      in if (65 \<le> k \<and> k \<le> 90) \<or> (192 \<le> k \<and> k \<le> 222 \<and> k \<noteq> 215) then char_of (k + 32)
         else c)"

definition toLowerCase :: "string \<Rightarrow> string" where
  "toLowerCase s = map lower_char s"

text \<open>
  The add branch. The User schema declares \<open>email\<close> with \<open>lowercase: true\<close>, and the setter
  applies to the filter of a query as well: \<open>User.findOne({ email })\<close> is the first user
  whose stored email is the supplied one in lower case.
\<close>

definition handle_add :: "faults \<Rightarrow> string \<Rightarrow> string \<Rightarrow> string option \<Rightarrow> store \<Rightarrow> response \<times> store" where
  "handle_add throws u i mail st =
     (if falsy mail then (Response 400 (Message ''Please provide an email''), st)
      else
        case findOne (throws 0) (\<lambda>d. iid d = ObjectId i \<and> userId d = ObjectId u) (itineraries st) of
          Inl m \<Rightarrow> (server_error m, st)
        | Inr None \<Rightarrow>
            (Response 404 (Message ''Itinerary not found or you do not have permission''), st)
        | Inr (Some it) \<Rightarrow>
            (case findOne (throws 1) (\<lambda>x. Some (email x) = map_option toLowerCase mail)
                    (users st) of
               Inl m \<Rightarrow> (server_error m, st)
             | Inr None \<Rightarrow> (Response 404 (Message ''User not found''), st)
             | Inr (Some c) \<Rightarrow>
                 if toString (user_id c) = u
                 then (Response 400 (Message ''You cannot add yourself as a collaborator''), st)
                 else if already_collaborator (collaborators it) c
                 then (Response 400 (Message ''User is already a collaborator''), st)
                 else
                   (case save (throws 2)
                           (it \<lparr> collaborators :=
                                   collaborators it @ [ObjectId (toString (user_id c))] \<rparr>) st of
                      Inl m \<Rightarrow> (server_error m, st)
                    | Inr st' \<Rightarrow> (reply_updated (throws 3) i st', st'))))"

text \<open>The remove branch: the entries whose \<open>toString()\<close> is the given identifier are dropped.\<close>

definition handle_remove :: "faults \<Rightarrow> string \<Rightarrow> string \<Rightarrow> string option \<Rightarrow> store \<Rightarrow> response \<times> store" where
  "handle_remove throws u i collaboratorId st =
     (if falsy collaboratorId
      then (Response 400 (Message ''Please provide a collaborator ID''), st)
      else
        case findOne (throws 0) (\<lambda>d. iid d = ObjectId i \<and> userId d = ObjectId u) (itineraries st) of
          Inl m \<Rightarrow> (server_error m, st)
        | Inr None \<Rightarrow>
            (Response 404 (Message ''Itinerary not found or you do not have permission''), st)
        | Inr (Some it) \<Rightarrow>
            (case save (throws 1)
                    (it \<lparr> collaborators :=
                            filter (\<lambda>collabId. Some (toString collabId) \<noteq> collaboratorId)
                              (collaborators it) \<rparr>) st of
               Inl m \<Rightarrow> (server_error m, st)
             | Inr st' \<Rightarrow> (reply_updated (throws 2) i st', st')))"

definition collaborate_handler ::
  "faults \<Rightarrow> string option \<Rightarrow> string \<Rightarrow> string \<Rightarrow> string option \<Rightarrow> string option \<Rightarrow> store
    \<Rightarrow> response \<times> store" where
  "collaborate_handler throws session method i mail collaboratorId st =
     (case session of
        None \<Rightarrow> (Response 401 (Message ''Unauthorized''), st)
      | Some u \<Rightarrow>
          if method = ''POST'' then handle_add throws u i mail st
          else if method = ''DELETE'' then handle_remove throws u i collaboratorId st
          else (Response 405 (Message ''Method not allowed''), st))"

section \<open>The membership checks of the itinerary page\<close>

text \<open>
  The page works on the JSON reply. \<open>toString()\<close> of a string is the string, of a plain
  object the text \<open>[object Object]\<close>; \<open>session?.user?.id\<close> may be undefined.
\<close>

fun js_toString :: "collab \<Rightarrow> string" where
  "js_toString (Reference s) = s"
| "js_toString (Expanded i n e) = ''[object Object]''"

text \<open>
  \<open>collab.toString() === session?.user?.id ||
    (typeof collab === 'object' && collab._id?.toString() === session?.user?.id)\<close>
\<close>

fun same_user :: "string option \<Rightarrow> collab \<Rightarrow> bool" where
  "same_user sid (Reference s) = (Some s = sid)"
| "same_user sid (Expanded i n e) = (Some ''[object Object]'' = sid \<or> i = sid)"

definition isCollaborator :: "string option \<Rightarrow> view option \<Rightarrow> bool" where
  "isCollaborator sid v =
     (case v of None \<Rightarrow> False | Some it \<Rightarrow> list_ex (same_user sid) (v_collaborators it))"

text \<open>\<open>itinerary && session?.user?.id === itinerary.userId?.toString()\<close>\<close>

definition isOwner :: "string option \<Rightarrow> view option \<Rightarrow> bool" where
  "isOwner sid v =
     (case v of None \<Rightarrow> False | Some it \<Rightarrow> sid = map_option js_toString (v_userId it))"

section \<open>JSON.parse\<close>

text \<open>
  The built-in \<open>JSON.parse\<close>, following the JSON grammar: white space, objects, arrays,
  strings with their escapes, numbers and the three literal names. A text is a list of
  code units below 256.
\<close>

definition json_ws :: "char \<Rightarrow> bool" where
  "json_ws c \<longleftrightarrow> c = CHR '' '' \<or> c = CHR 0x09 \<or> c = CHR 0x0A \<or> c = CHR 0x0D"

definition skip_ws :: "string \<Rightarrow> string" where
  "skip_ws s = dropWhile json_ws s"

definition digit :: "char \<Rightarrow> bool" where
  "digit c \<longleftrightarrow> 48 \<le> (of_char c :: nat) \<and> (of_char c :: nat) \<le> 57"

definition hex_value :: "char \<Rightarrow> nat option" where
  "hex_value c =
     (let k = (of_char c :: nat)
      in if 48 \<le> k \<and> k \<le> 57 then Some (k - 48)
         else if 97 \<le> k \<and> k \<le> 102 then Some (k - 87)
         else if 65 \<le> k \<and> k \<le> 70 then Some (k - 55)
         else None)"

definition escape :: "char \<Rightarrow> nat option" where
  "escape e =
     (if e = CHR 0x22 then Some 34
      else if e = CHR 0x5C then Some 92
      else if e = CHR ''/'' then Some 47
      else if e = CHR ''b'' then Some 8
      else if e = CHR ''f'' then Some 12
      else if e = CHR ''n'' then Some 10
      else if e = CHR ''r'' then Some 13
      else if e = CHR ''t'' then Some 9
      else None)"

fun unicode_escape :: "string \<Rightarrow> nat option" where
  "unicode_escape [a, b, c, d] =
     (case (hex_value a, hex_value b, hex_value c, hex_value d) of
        (Some x, Some y, Some z, Some w) \<Rightarrow> Some (((x * 16 + y) * 16 + z) * 16 + w)
      | _ \<Rightarrow> None)"
| "unicode_escape s = None"

text \<open>
  A string after its opening quote, up to the closing quote: escapes are decoded, a control
  character is an error.
\<close>

fun string_body :: "string \<Rightarrow> nat list \<Rightarrow> (nat list \<times> string) option" where
  "string_body [] acc = None"
| "string_body (c # cs) acc =
     (if c = CHR 0x22 then Some (acc, cs)
      else if c = CHR 0x5C then
        (case cs of
           [] \<Rightarrow> None
         | e # r \<Rightarrow>
             if e = CHR ''u'' then
               (case unicode_escape (take 4 r) of
                  None \<Rightarrow> None
                | Some u \<Rightarrow> string_body (drop 4 r) (acc @ [u]))
             else
               (case escape e of
                  None \<Rightarrow> None
                | Some u \<Rightarrow> string_body r (acc @ [u])))
      else if (of_char c :: nat) < 32 then None
      else string_body cs (acc @ [of_char c]))"

definition digits :: "string \<Rightarrow> string \<times> string" where
  "digits s = (takeWhile digit s, dropWhile digit s)"

text \<open>An optional minus sign.\<close>

definition sign_part :: "string \<Rightarrow> string \<times> string" where
  "sign_part s =
     (case s of [] \<Rightarrow> ([], s) | c # r \<Rightarrow> if c = CHR ''-'' then ([c], r) else ([], s))"

text \<open>The integer part: a single zero, or digits that do not start with a zero.\<close>

definition int_part :: "string \<Rightarrow> (string \<times> string) option" where
  "int_part s =
     (case s of
        [] \<Rightarrow> None
      | c # r \<Rightarrow>
          if c = CHR ''0'' then Some ([c], r)
          else if digit c then Some (digits s)
          else None)"

text \<open>An optional fraction: a point and at least one digit.\<close>

definition frac_part :: "string \<Rightarrow> (string \<times> string) option" where
  "frac_part s =
     (case s of
        [] \<Rightarrow> Some ([], s)
      | c # r \<Rightarrow>
          if c = CHR ''.'' then
            (if fst (digits r) = [] then None else Some (c # fst (digits r), snd (digits r)))
          else Some ([], s))"

text \<open>An optional exponent: e or E, an optional sign and at least one digit.\<close>

definition exp_sign :: "string \<Rightarrow> string \<times> string" where
  "exp_sign s =
     (case s of
        [] \<Rightarrow> ([], s)
      | c # r \<Rightarrow> if c = CHR ''+'' \<or> c = CHR ''-'' then ([c], r) else ([], s))"

definition exp_part :: "string \<Rightarrow> (string \<times> string) option" where
  "exp_part s =
     (case s of
        [] \<Rightarrow> Some ([], s)
      | c # r \<Rightarrow>
          if c = CHR ''e'' \<or> c = CHR ''E'' then
            (let (sg, r') = exp_sign r
             in if fst (digits r') = [] then None
                else Some (c # sg @ fst (digits r'), snd (digits r')))
          else Some ([], s))"

definition number :: "string \<Rightarrow> (string \<times> string) option" where
  "number s =
     (let (sg, s1) = sign_part s
      in case int_part s1 of
           None \<Rightarrow> None
         | Some (ip, s2) \<Rightarrow>
             (case frac_part s2 of
                None \<Rightarrow> None
              | Some (fp, s3) \<Rightarrow>
                  (case exp_part s3 of
                     None \<Rightarrow> None
                   | Some (ep, s4) \<Rightarrow> Some (sg @ ip @ fp @ ep, s4))))"

text \<open>A value that is not an object or an array: a string, a number or a literal name.\<close>

definition scalar :: "string \<Rightarrow> (json \<times> string) option" where
  "scalar s =
     (case s of
        [] \<Rightarrow> None
      | c # cs \<Rightarrow>
          if c = CHR 0x22 then map_option (\<lambda>(u, r). (JStr u, r)) (string_body cs [])
          else if c = CHR ''-'' \<or> digit c then map_option (\<lambda>(l, r). (JNum l, r)) (number s)
          else if take 4 s = ''true'' then Some (JBool True, drop 4 s)
          else if take 5 s = ''false'' then Some (JBool False, drop 5 s)
          else if take 4 s = ''null'' then Some (JNull, drop 4 s)
          else None)"

text \<open>
  Objects and arrays nest, so the parser of values carries fuel; \<open>Exhausted\<close> is kept
  apart from a syntax error.
\<close>

datatype 'a parsed = Parsed 'a string | Syntax | Exhausted

fun json_value :: "nat \<Rightarrow> string \<Rightarrow> json parsed"
  and elements :: "nat \<Rightarrow> string \<Rightarrow> json list \<Rightarrow> (json list) parsed"
  and members :: "nat \<Rightarrow> string \<Rightarrow> (nat list \<times> json) list \<Rightarrow> ((nat list \<times> json) list) parsed"
where
  "json_value 0 s = Exhausted"
| "json_value (Suc n) [] = Syntax"
| "json_value (Suc n) (c # cs) =
     (if c = CHR ''{'' then
        (case skip_ws cs of
           [] \<Rightarrow> Syntax
         | x # r \<Rightarrow>
             if x = CHR ''}'' then Parsed (JObj []) r
             else (case members n (x # r) [] of
                     Parsed kvs r' \<Rightarrow> Parsed (JObj kvs) r'
                   | Syntax \<Rightarrow> Syntax
                   | Exhausted \<Rightarrow> Exhausted))
      else if c = CHR ''['' then
        (case skip_ws cs of
           [] \<Rightarrow> Syntax
         | x # r \<Rightarrow>
             if x = CHR '']'' then Parsed (JArr []) r
             else (case elements n (x # r) [] of
                     Parsed vs r' \<Rightarrow> Parsed (JArr vs) r'
                   | Syntax \<Rightarrow> Syntax
                   | Exhausted \<Rightarrow> Exhausted))
      else (case scalar (c # cs) of None \<Rightarrow> Syntax | Some (v, r) \<Rightarrow> Parsed v r))"
| "elements 0 s acc = Exhausted"
| "elements (Suc n) s acc =
     (case json_value n s of
        Parsed v r \<Rightarrow>
          (case skip_ws r of
             [] \<Rightarrow> Syntax
           | x # r' \<Rightarrow>
               if x = CHR '','' then elements n (skip_ws r') (acc @ [v])
               else if x = CHR '']'' then Parsed (acc @ [v]) r'
               else Syntax)
      | Syntax \<Rightarrow> Syntax
      | Exhausted \<Rightarrow> Exhausted)"
| "members 0 s acc = Exhausted"
| "members (Suc n) [] acc = Syntax"
| "members (Suc n) (c # cs) acc =
     (if c = CHR 0x22 then
        (case string_body cs [] of
           None \<Rightarrow> Syntax
         | Some (k, r) \<Rightarrow>
             (case skip_ws r of
                [] \<Rightarrow> Syntax
              | x # r' \<Rightarrow>
                  if x = CHR '':'' then
                    (case json_value n (skip_ws r') of
                       Parsed v r2 \<Rightarrow>
                         (case skip_ws r2 of
                            [] \<Rightarrow> Syntax
                          | y # r3 \<Rightarrow>
                              if y = CHR '','' then members n (skip_ws r3) (acc @ [(k, v)])
                              else if y = CHR ''}'' then Parsed (acc @ [(k, v)]) r3
                              else Syntax)
                     | Syntax \<Rightarrow> Syntax
                     | Exhausted \<Rightarrow> Exhausted)
                  else Syntax))
      else Syntax)"

text \<open>
  \<open>JSON.parse(text)\<close>: one value between optional white space, and nothing else;
  \<open>None\<close> stands for the \<open>SyntaxError\<close>.
\<close>

definition JSON_parse :: "string \<Rightarrow> json option" where
  "JSON_parse s =
     (case json_value (2 * length s + 1) (skip_ws s) of
        Parsed v r \<Rightarrow> if skip_ws r = [] then Some v else None
      | Syntax \<Rightarrow> None
      | Exhausted \<Rightarrow> None)"

section \<open>The generation handler: from raw text to a stored itinerary\<close>

text \<open>
  \<open>cleanedData.replace(/```json\n?/g, '').replace(/```\n?/g, '').trim()\<close>: every
  occurrence of the marker, with the line feed that may follow it, is removed from left to
  right; then white space is trimmed at both ends.
\<close>

definition drop_newline :: "string \<Rightarrow> string" where
  "drop_newline s = (case s of [] \<Rightarrow> [] | c # r \<Rightarrow> if c = CHR 0x0A then r else s)"

function remove_marker :: "string \<Rightarrow> string \<Rightarrow> string" where
  "remove_marker m [] = []"
| "remove_marker m (c # cs) =
     (if m \<noteq> [] \<and> take (length m) (c # cs) = m
      then remove_marker m (drop_newline (drop (length m) (c # cs)))
      else c # remove_marker m cs)"
  by pat_completeness auto
termination
proof (relation "measure (\<lambda>(m, s). length s)")
  show "wf (measure (\<lambda>(m, s). length s))" by simp
next
  fix m :: string and c :: char and cs :: string
  assume "m \<noteq> [] \<and> take (length m) (c # cs) = m"
  then have "length (drop (length m) (c # cs)) < length (c # cs)" by (cases m) auto
  moreover have "length (drop_newline t) \<le> length t" for t
    by (simp add: drop_newline_def split: list.splits)
  ultimately have "length (drop_newline (drop (length m) (c # cs))) < length (c # cs)"
    by (rule le_less_trans [rotated])
  then show "((m, drop_newline (drop (length m) (c # cs))), (m, c # cs)) \<in> measure (\<lambda>(m, s). length s)"
    by simp
next
  fix m :: string and c :: char and cs :: string
  show "((m, cs), (m, c # cs)) \<in> measure (\<lambda>(m, s). length s)" by simp
qed

text \<open>The white space and line terminators that \<open>trim()\<close> removes, among the units below 256.\<close>

definition js_space :: "char \<Rightarrow> bool" where
  "js_space c \<longleftrightarrow> (of_char c :: nat) \<in> {9, 10, 11, 12, 13, 32, 160}"

definition trim :: "string \<Rightarrow> string" where
  "trim s = rev (dropWhile js_space (rev (dropWhile js_space s)))"

definition cleaned :: "string \<Rightarrow> string" where
  "cleaned raw = trim (remove_marker ''```'' (remove_marker ''```json'' raw))"

text \<open>
  \<open>cleanedData.match(/\{[\s\S]*\}/)\<close>: the match is greedy, from the first opening brace to
  the last closing brace after it; there is none when no closing brace follows the first
  opening one.
\<close>

definition jsonMatch :: "string \<Rightarrow> string option" where
  "jsonMatch s =
     (let t = dropWhile (\<lambda>c. c \<noteq> CHR ''{'') s
      in if CHR ''}'' \<in> set t then Some (rev (dropWhile (\<lambda>c. c \<noteq> CHR ''}'') (rev t))) else None)"

text \<open>
  The fallback of the handler: the direct parse; when it throws, the match of
  \<open>/\{[\s\S]*\}/\<close> in the cleaned text is parsed.
\<close>

definition parse_payload :: "string \<Rightarrow> failure + json" where
  "parse_payload itineraryData =
     (case JSON_parse itineraryData of
        Some parsedData \<Rightarrow> Inr parsedData
      | None \<Rightarrow>
          (case jsonMatch (cleaned itineraryData) of
             Some m \<Rightarrow>
               (case JSON_parse m of
                  Some parsedData \<Rightarrow> Inr parsedData
                | None \<Rightarrow> Inl ParseFailed)
           | None \<Rightarrow> Inl NoJsonFound))"

text \<open>A text as the code units of a string value.\<close>

definition ustr :: "string \<Rightarrow> nat list" where
  "ustr s = map of_char s"

text \<open>
  Truthiness of a parsed value. A number is falsy when it is zero, that is when its
  mantissa has no digit other than 0 (a value so small that it rounds to zero is not
  modelled).
\<close>

fun truthy :: "json \<Rightarrow> bool" where
  "truthy JNull = False"
| "truthy (JBool b) = b"
| "truthy (JNum l) =
     list_ex (\<lambda>c. 49 \<le> (of_char c :: nat) \<and> (of_char c :: nat) \<le> 57)
       (takeWhile (\<lambda>c. c \<noteq> CHR ''e'' \<and> c \<noteq> CHR ''E'') l)"
| "truthy (JStr u) = (u \<noteq> [])"
| "truthy (JArr vs) = True"
| "truthy (JObj kvs) = True"

text \<open>
  \<open>parsedData.key\<close> for a value that is not null: the last member of that name of an
  object, undefined for anything else.
\<close>

fun get_prop :: "json \<Rightarrow> string \<Rightarrow> json option" where
  "get_prop (JObj kvs) k = map_of (rev kvs) (ustr k)"
| "get_prop v k = None"

text \<open>\<open>a || b\<close>, where \<open>a\<close> may be undefined.\<close>

definition js_or :: "json option \<Rightarrow> json \<Rightarrow> json" where
  "js_or a b = (case a of None \<Rightarrow> b | Some v \<Rightarrow> if truthy v then v else b)"

text \<open>
  The validation of the parsed payload: reading \<open>days\<close> of null throws; \<open>days\<close> must be
  an array, and must not be empty.
\<close>

definition validate :: "json \<Rightarrow> failure + unit" where
  "validate parsedData =
     (if parsedData = JNull then Inl NullPayload
      else
        case get_prop parsedData ''days'' of
          None \<Rightarrow> Inl MissingDays
        | Some ds \<Rightarrow>
            (case ds of
               JArr xs \<Rightarrow> if \<not> truthy ds then Inl MissingDays
                          else if length xs = 0 then Inl NoDays
                          else Inr ()
             | _ \<Rightarrow> Inl MissingDays))"

text \<open>
  The request of the generation handler. \<open>days\<close> is the day count the page sends, a
  positive decimal numeral: \<open>parseInt(days)\<close> is that number, and \<open>${days}\<close> its
  decimal text.
\<close>

record generation_request =
  destination :: "string option"
  days :: "nat option"
  budget :: "string option"
  interests :: "string list option"

text \<open>The decimal text of a number.\<close>

fun decimal :: "nat \<Rightarrow> string" where
  "decimal n =
     (if n < 10 then [char_of (48 + n)]
      else decimal (n div 10) @ [char_of (48 + n mod 10)])"

text \<open>The object given to \<open>Itinerary.create\<close> by the generation handler.\<close>

definition new_itinerary ::
  "string \<Rightarrow> string \<Rightarrow> nat \<Rightarrow> string \<Rightarrow> string list option \<Rightarrow> json \<Rightarrow> body" where
  "new_itinerary u dest n bud ints parsedData =
     \<lparr> b_userId = Some (ObjectId u),
       b_collaborators = Some [],
       b_isPublic = Some False,
       b_content =
         [(''title'',
             JStr (ustr (dest @ '' - '' @ decimal n @ '' Day'' @ (if n > 1 then ''s'' else [])
                         @ '' Trip''))),
          (''destination'', js_or (get_prop parsedData ''destination'') (JStr (ustr dest))),
          (''totalDays'', js_or (get_prop parsedData ''totalDays'') (JNum (decimal n))),
          (''budget'', js_or (get_prop parsedData ''budget'') (JStr (ustr bud))),
          (''interests'',
             js_or (get_prop parsedData ''interests'')
               (JArr (map (\<lambda>i. JStr (ustr i)) (case ints of None \<Rightarrow> [] | Some xs \<Rightarrow> xs)))),
          (''days'', js_or (get_prop parsedData ''days'') (JArr [])),
          (''summary'',
             js_or (get_prop parsedData ''summary'')
               (JObj [(ustr ''totalEstimatedCost'', JStr (ustr bud)),
                      (ustr ''highlights'', JArr []),
                      (ustr ''tips'', JArr [])]))] \<rparr>"

text \<open>
  \<open>connect\<close> is the message of a failed \<open>dbConnect()\<close>, if it fails; \<open>generated\<close> is what
  \<open>generateItinerary\<close> returns (the raw text) or throws (a message).
\<close>

definition generate_handler ::
  "string \<Rightarrow> string option \<Rightarrow> generation_request \<Rightarrow> string option \<Rightarrow> string + string
    \<Rightarrow> faults \<Rightarrow> objectId \<Rightarrow> nat \<Rightarrow> store \<Rightarrow> response \<times> store" where
  "generate_handler method session rq connect generated throws fresh now st =
     (if method \<noteq> ''POST'' then (Response 405 (Message ''Method not allowed''), st)
      else
        case session of
          None \<Rightarrow> (Response 401 (Message ''Unauthorized''), st)
        | Some u \<Rightarrow>
            (case (destination rq, days rq, budget rq) of
               (Some dest, Some n, Some bud) \<Rightarrow>
                 if dest = [] \<or> n = 0 \<or> bud = []
                 then (Response 400 (Message ''Please provide destination, days, and budget''), st)
                 else
                   (case connect of
                      Some m \<Rightarrow> (Response 500 (Failed (Connect m)), st)
                    | None \<Rightarrow>
                        (case generated of
                           Inl m \<Rightarrow> (Response 500 (Failed (Upstream m)), st)
                         | Inr itineraryData \<Rightarrow>
                             (case parse_payload itineraryData of
                                Inl f \<Rightarrow> (Response 500 (Failed f), st)
                              | Inr parsedData \<Rightarrow>
                                  (case validate parsedData of
                                     Inl f \<Rightarrow> (Response 500 (Failed f), st)
                                   | Inr _ \<Rightarrow>
                                       (case Itinerary_create (throws 0) fresh now
                                               (new_itinerary u dest n bud (interests rq) parsedData)
                                               st of
                                          Inl m \<Rightarrow> (Response 500 (Failed (Store m)), st)
                                        | Inr (d, st') \<Rightarrow>
                                            (Response 201 (Data (Some (plain d))), st'))))))
             | _ \<Rightarrow> (Response 400 (Message ''Please provide destination, days, and budget''), st)))"

section \<open>The three-stage fallback as the specification words it\<close>

text \<open>
  The specification describes three stages: the direct parse; the parse of the text with
  the wrapper markers stripped; the parse of the first top-level balanced span, a brace
  with the brace that closes it. \<open>spec_parse_payload\<close> follows these words; it is
  compared with \<open>parse_payload\<close>, which follows the code.
\<close>

text \<open>The span that ends where the brace depth returns to zero.\<close>

fun span_end :: "nat \<Rightarrow> string \<Rightarrow> string \<Rightarrow> string option" where
  "span_end depth acc [] = None"
| "span_end depth acc (c # cs) =
     (if c = CHR ''{'' then span_end (Suc depth) (acc @ [c]) cs
      else if c = CHR ''}'' then
        (case depth of
           0 \<Rightarrow> None
         | Suc k \<Rightarrow> if k = 0 then Some (acc @ [c]) else span_end k (acc @ [c]) cs)
      else span_end depth (acc @ [c]) cs)"

definition balanced_span :: "string \<Rightarrow> string option" where
  "balanced_span s = span_end 0 [] (dropWhile (\<lambda>c. c \<noteq> CHR ''{'') s)"

definition spec_parse_payload :: "string \<Rightarrow> failure + json" where
  "spec_parse_payload raw =
     (case JSON_parse raw of
        Some v \<Rightarrow> Inr v
      | None \<Rightarrow>
          (case JSON_parse (cleaned raw) of
             Some v \<Rightarrow> Inr v
           | None \<Rightarrow>
               (case balanced_span (cleaned raw) of
                  None \<Rightarrow> Inl NoJsonFound
                | Some m \<Rightarrow>
                    (case JSON_parse m of
                       Some v \<Rightarrow> Inr v
                     | None \<Rightarrow> Inl ParseFailed))))"

section \<open>Example data\<close>

definition alice :: user where
  "alice = \<lparr> user_id = ObjectId ''64b7f0a1c2d3e4f5a6b7c8d1'', name = ''Alice'',
             email = ''alice@example.com'' \<rparr>"

definition bob :: user where
  "bob = \<lparr> user_id = ObjectId ''64b7f0a1c2d3e4f5a6b7c8d2'', name = ''Bob'',
           email = ''bob@example.com'' \<rparr>"

definition carol :: user where
  "carol = \<lparr> user_id = ObjectId ''64b7f0a1c2d3e4f5a6b7c8d3'', name = ''Carol'',
             email = ''carol@example.com'' \<rparr>"

text \<open>Alice owns both itineraries; Bob collaborates on the first; the second is public.\<close>

definition paris :: itinerary where
  "paris = \<lparr> iid = ObjectId ''64b7f0a1c2d3e4f5a6b7c9e1'',
             userId = ObjectId ''64b7f0a1c2d3e4f5a6b7c8d1'',
             collaborators = [ObjectId ''64b7f0a1c2d3e4f5a6b7c8d2''],
             isPublic = False,
             content = [(''destination'', JStr (ustr ''Paris''))],
             createdAt = 1 \<rparr>"

definition rome :: itinerary where
  "rome = \<lparr> iid = ObjectId ''64b7f0a1c2d3e4f5a6b7c9e2'',
            userId = ObjectId ''64b7f0a1c2d3e4f5a6b7c8d1'',
            collaborators = [],
            isPublic = True,
            content = [(''destination'', JStr (ustr ''Rome''))],
            createdAt = 2 \<rparr>"

definition demo :: store where
  "demo = \<lparr> itineraries = [paris, rome], users = [alice, bob, carol] \<rparr>"

definition quiet :: faults where
  "quiet = (\<lambda>n. None)"

definition no_body :: body where
  "no_body = \<lparr> b_userId = None, b_collaborators = None, b_isPublic = None, b_content = [] \<rparr>"

text \<open>A body that names Bob as the owner.\<close>

definition takeover :: body where
  "takeover = \<lparr> b_userId = Some (ObjectId ''64b7f0a1c2d3e4f5a6b7c8d2''), b_collaborators = None,
                b_isPublic = None, b_content = [] \<rparr>"

text \<open>
  A complete body for a manual creation that also names Bob as the owner, Bob as a
  collaborator, and sets the public flag.
\<close>

definition shared_body :: body where
  "shared_body =
     \<lparr> b_userId = Some (ObjectId ''64b7f0a1c2d3e4f5a6b7c8d2''),
       b_collaborators = Some [ObjectId ''64b7f0a1c2d3e4f5a6b7c8d2''],
       b_isPublic = Some True,
       b_content =
         [(''title'', JStr (ustr ''Oslo - 1 Day Trip'')),
          (''destination'', JStr (ustr ''Oslo'')),
          (''totalDays'', JNum ''1''),
          (''budget'', JStr (ustr ''$300'')),
          (''interests'', JArr []),
          (''days'', JArr [JObj [(ustr ''activities'', JArr [])]]),
          (''summary'',
             JObj [(ustr ''totalEstimatedCost'', JStr (ustr ''$300'')),
                   (ustr ''highlights'', JArr []),
                   (ustr ''tips'', JArr [])])] \<rparr>"

definition paris_request :: generation_request where
  "paris_request = \<lparr> destination = Some ''Paris'', days = Some 3, budget = Some ''$1000'',
                     interests = None \<rparr>"

text \<open>A payload in a fenced block, and a payload followed by a remark with braces.\<close>

definition three_days :: string where
  \<open>three_days = ''{"days":[{},{},{}]}''\<close>

definition one_day :: string where
  \<open>one_day = ''{"days":[{}]}''\<close>

definition fenced :: string where
  "fenced = ''```json'' @ [CHR 0x0A] @ three_days @ [CHR 0x0A] @ ''```''"

definition remarked :: string where
  "remarked = one_day @ '' Enjoy {Paris}!''"

text \<open>The same payload in two fenced blocks, and a fenced array that holds the payload.\<close>

definition first_half :: string where
  \<open>first_half = ''{"days":[''\<close>

definition second_half :: string where
  "second_half = ''{}]}''"

definition split_fenced :: string where
  "split_fenced =
     ''```json'' @ [CHR 0x0A] @ first_half @ [CHR 0x0A] @ ''```'' @ [CHR 0x0A]
       @ ''```json'' @ [CHR 0x0A] @ second_half @ [CHR 0x0A] @ ''```''"

definition fenced_list :: string where
  "fenced_list = ''```json'' @ [CHR 0x0A] @ ''['' @ one_day @ '']'' @ [CHR 0x0A] @ ''```''"

text \<open>The itinerary with a collaborator added at the end, as the add branch saves it.\<close>

definition added :: "itinerary \<Rightarrow> user \<Rightarrow> itinerary" where
  "added d c = d \<lparr> collaborators := collaborators d @ [user_id c] \<rparr>"

section \<open>Facts about identifiers and the store\<close>

lemmas demo_defs = alice_def bob_def carol_def paris_def rome_def demo_def quiet_def no_body_def
  takeover_def

lemma ObjectId_toString: "ObjectId (toString i) = i"
  by (cases i) simp

lemma toString_eq_iff: "toString x = toString y \<longleftrightarrow> x = y"
  by (cases x; cases y) simp

lemma toString_eq_string: "toString x = s \<longleftrightarrow> x = ObjectId s"
  by (cases x) auto

lemma find_absent_id:
  "i \<notin> iid ` set ds \<Longrightarrow> find (\<lambda>x. iid x = i \<and> P x) ds = None"
  by (induction ds) auto

lemma find_by_id_distinct:
  "distinct (map iid ds) \<Longrightarrow> d \<in> set ds \<Longrightarrow>
   find (\<lambda>x. iid x = iid d \<and> P x) ds = (if P d then Some d else None)"
proof (induction ds)
  case Nil
  then show ?case by simp
next
  case (Cons a ds)
  show ?case
  proof (cases "a = d")
    case True
    with Cons.prems have "iid d \<notin> iid ` set ds" by simp
    then have "find (\<lambda>x. iid x = iid d \<and> P x) ds = None"
      by (rule find_absent_id)
    with True show ?thesis by simp
  next
    case False
    with Cons.prems have "d \<in> set ds" "iid a \<noteq> iid d" by auto
    with Cons show ?thesis by simp
  qed
qed

lemma find_id_only:
  "distinct (map iid ds) \<Longrightarrow> d \<in> set ds \<Longrightarrow> find (\<lambda>x. iid x = iid d) ds = Some d"
  using find_by_id_distinct [of ds d "\<lambda>x. True"] by simp

lemma map_iid_update_first:
  "(\<And>x. iid (f x) = iid x) \<Longrightarrow> map iid (update_first i f ds) = map iid ds"
  by (induction ds) auto

lemma update_first_member:
  "d \<in> set ds \<Longrightarrow> distinct (map iid ds) \<Longrightarrow> f d \<in> set (update_first (iid d) f ds)"
  by (induction ds) (auto simp: image_iff)

lemma iid_apply_update: "iid (apply_update b d) = iid d"
  by (simp add: apply_update_def)

lemma find_after_update:
  assumes "distinct (map iid ds)" and "d \<in> set ds" and "\<And>x. iid (f x) = iid x"
  shows "find (\<lambda>x. iid x = iid d) (update_first (iid d) f ds) = Some (f d)"
proof -
  have "distinct (map iid (update_first (iid d) f ds))"
    using assms(1,3) by (simp add: map_iid_update_first)
  moreover have "f d \<in> set (update_first (iid d) f ds)"
    using assms(1,2) by (rule update_first_member[rotated])
  ultimately have "find (\<lambda>x. iid x = iid (f d)) (update_first (iid d) f ds) = Some (f d)"
    by (rule find_id_only)
  then show ?thesis by (simp add: assms(3))
qed

lemma delete_first_removes:
  "distinct (map iid ds) \<Longrightarrow> iid d \<notin> iid ` set (delete_first (iid d) ds)"
  by (induction ds) (auto simp: image_iff)

section \<open>Reading, updating and deleting one itinerary\<close>

lemma castObjectId_canonical:
  assumes "length s = 24"
    and "list_all (\<lambda>c. hex_digit c \<and> \<not> (65 \<le> (of_char c :: nat) \<and> (of_char c :: nat) \<le> 70)) s"
  shows "castObjectId s = Some (ObjectId s)"
proof -
  have "map lower_hex s = s"
    using assms(2) by (induction s) (auto simp: lower_hex_def)
  moreover have "list_all hex_digit s"
    using assms(2) by (induction s) auto
  ultimately show ?thesis using assms(1) by (simp add: castObjectId_def)
qed


text \<open>
  C1. An authenticated GET that names a stored itinerary, in any spelling of its
  identifier, answers 200 with the record exactly when the requester is the owner, is
  among the collaborators, or the itinerary is public; in every other case it answers 404
  with "Itinerary not found", and never 403. A well-formed identifier that no stored
  itinerary has is answered 404 as well. (No store operation throws; identifiers are
  unique in the collection.)
\<close>

theorem get_allowed_iff:
  assumes "throws 0 = None"
    and "distinct (map iid (itineraries st))"
    and "d \<in> set (itineraries st)"
    and "castObjectId i = Some (iid d)"
  shows "itinerary_handler throws (Some u) ''GET'' i b st =
           (if userId d = ObjectId u \<or> ObjectId u \<in> set (collaborators d) \<or> isPublic d
            then (Response 200 (Data (Some (populate st d))), st)
            else (Response 404 (Message ''Itinerary not found''), st))
         \<and> status (fst (itinerary_handler throws (Some u) ''GET'' i b st)) \<noteq> 403
         \<and> (\<forall>j oid. castObjectId j = Some oid \<and> oid \<notin> iid ` set (itineraries st) \<longrightarrow>
              itinerary_handler throws (Some u) ''GET'' j b st
                = (Response 404 (Message ''Itinerary not found''), st))"
  using assms
  by (simp add: itinerary_handler_def handle_get_def findOne_def
      find_by_id_distinct may_read_def find_absent_id)

theorem get_allowed_iff_witness:
  "castObjectId ''64B7F0A1C2D3E4F5A6B7C9E2'' = Some (iid rome)
   \<and> itinerary_handler quiet (Some ''64b7f0a1c2d3e4f5a6b7c8d3'') ''GET'' ''64b7f0a1c2d3e4f5a6b7c9e1'' no_body demo
     = (Response 404 (Message ''Itinerary not found''), demo)
   \<and> itinerary_handler quiet (Some ''64b7f0a1c2d3e4f5a6b7c8d3'') ''GET'' ''64B7F0A1C2D3E4F5A6B7C9E2'' no_body demo
     = (Response 200 (Data (Some (populate demo rome))), demo)
   \<and> itinerary_handler quiet (Some ''64b7f0a1c2d3e4f5a6b7c8d2'') ''GET'' ''64b7f0a1c2d3e4f5a6b7c9e1'' no_body demo
     = (Response 200 (Data (Some (populate demo paris))), demo)
   \<and> itinerary_handler quiet (Some ''64b7f0a1c2d3e4f5a6b7c8d3'') ''GET'' ''64b7f0a1c2d3e4f5a6b7c9e9'' no_body demo
     = (Response 404 (Message ''Itinerary not found''), demo)"
proof -
  have q: "quiet 0 = None" by (simp add: quiet_def)
  have dis: "distinct (map iid (itineraries demo))" by (simp add: demo_defs)
  have p: "paris \<in> set (itineraries demo)" and r: "rome \<in> set (itineraries demo)"
    by (simp_all add: demo_def)
  have cp: "castObjectId ''64b7f0a1c2d3e4f5a6b7c9e1'' = Some (iid paris)"
    by code_simp
  have cr: "castObjectId ''64B7F0A1C2D3E4F5A6B7C9E2'' = Some (iid rome)"
    by code_simp
  have cn: "castObjectId ''64b7f0a1c2d3e4f5a6b7c9e9'' = Some (ObjectId ''64b7f0a1c2d3e4f5a6b7c9e9'')
            \<and> ObjectId ''64b7f0a1c2d3e4f5a6b7c9e9'' \<notin> iid ` set (itineraries demo)"
    by code_simp
  show ?thesis
    using get_allowed_iff [of quiet demo paris "''64b7f0a1c2d3e4f5a6b7c9e1''" "''64b7f0a1c2d3e4f5a6b7c8d3''" no_body, OF q dis p cp]
      get_allowed_iff [of quiet demo rome "''64B7F0A1C2D3E4F5A6B7C9E2''" "''64b7f0a1c2d3e4f5a6b7c8d3''" no_body, OF q dis r cr]
      get_allowed_iff [of quiet demo paris "''64b7f0a1c2d3e4f5a6b7c9e1''" "''64b7f0a1c2d3e4f5a6b7c8d2''" no_body, OF q dis p cp]
      cn cr
    by (simp add: paris_def rome_def)
qed

text \<open>
  A path identifier that is not the text of an identifier names no itinerary: the query
  of the GET branch throws the cast error, and the handler answers 500 with its message.
\<close>

theorem get_malformed_id:
  "castObjectId i = None \<Longrightarrow>
     itinerary_handler throws (Some u) ''GET'' i b st = (Response 500 (Message (cast_error i)), st)"
  by (simp add: itinerary_handler_def handle_get_def server_error_def cast_error_def)

theorem get_malformed_id_witness:
  "castObjectId ''paris'' = None
   \<and> itinerary_handler quiet (Some ''64b7f0a1c2d3e4f5a6b7c8d1'') ''GET'' ''paris'' no_body demo
       = (Response 500 (Message (cast_error ''paris'')), demo)"
proof -
  have c: "castObjectId ''paris'' = None" by code_simp
  show ?thesis
    using get_malformed_id [of "''paris''" quiet "''64b7f0a1c2d3e4f5a6b7c8d1''" no_body demo, OF c] c
    by simp
qed

text \<open>
  C2. An authenticated PUT of a stored itinerary answers 200 and applies the body exactly
  when the requester is the owner or a collaborator; otherwise, also when the itinerary
  is public, it answers 404 and the store is unchanged.
\<close>

theorem put_allowed_iff:
  assumes "throws 0 = None" and "throws 1 = None"
    and "distinct (map iid (itineraries st))"
    and "d \<in> set (itineraries st)"
  shows "itinerary_handler throws (Some u) ''PUT'' (toString (iid d)) b st =
           (if userId d = ObjectId u \<or> ObjectId u \<in> set (collaborators d)
            then (let st' = st \<lparr> itineraries := update_first (iid d) (apply_update b) (itineraries st) \<rparr>
                  in (Response 200 (Data (Some (populate st' (apply_update b d)))), st'))
            else (Response 404 (Message ''Itinerary not found or you do not have permission''), st))"
  using assms
  by (simp add: itinerary_handler_def handle_put_def findOne_def ObjectId_toString
      find_by_id_distinct may_update_def findByIdAndUpdate_def Let_def find_after_update
      iid_apply_update)

theorem put_allowed_iff_witness:
  "itinerary_handler quiet (Some ''64b7f0a1c2d3e4f5a6b7c8d3'') ''PUT'' ''64b7f0a1c2d3e4f5a6b7c9e2'' no_body demo
     = (Response 404 (Message ''Itinerary not found or you do not have permission''), demo)
   \<and> status (fst (itinerary_handler quiet (Some ''64b7f0a1c2d3e4f5a6b7c8d2'') ''PUT''
         ''64b7f0a1c2d3e4f5a6b7c9e1'' no_body demo)) = 200"
proof -
  have q: "quiet 0 = None" "quiet 1 = None" by (simp_all add: quiet_def)
  have dis: "distinct (map iid (itineraries demo))" by (simp add: demo_defs)
  have p: "paris \<in> set (itineraries demo)" and r: "rome \<in> set (itineraries demo)"
    by (simp_all add: demo_def)
  show ?thesis
    using put_allowed_iff [of quiet demo rome "''64b7f0a1c2d3e4f5a6b7c8d3''" no_body, OF q dis r]
      put_allowed_iff [of quiet demo paris "''64b7f0a1c2d3e4f5a6b7c8d2''" no_body, OF q dis p]
    by (simp add: paris_def rome_def Let_def)
qed

text \<open>
  C3. An authenticated DELETE of a stored itinerary answers 200 and removes the record
  exactly when the requester is the owner; every other requester, a collaborator or a
  reader of a public itinerary included, gets 404 and the store is unchanged.
\<close>

theorem delete_allowed_iff:
  assumes "throws 0 = None" and "throws 1 = None"
    and "distinct (map iid (itineraries st))"
    and "d \<in> set (itineraries st)"
  shows "itinerary_handler throws (Some u) ''DELETE'' (toString (iid d)) b st =
           (if userId d = ObjectId u
            then (Response 200 (Deleted ''Itinerary deleted successfully''),
                  st \<lparr> itineraries := delete_first (iid d) (itineraries st) \<rparr>)
            else (Response 404 (Message ''Itinerary not found or you do not have permission''), st))
         \<and> (userId d = ObjectId u \<longrightarrow>
              d \<notin> set (itineraries (snd (itinerary_handler throws (Some u) ''DELETE''
                                              (toString (iid d)) b st))))"
  using assms delete_first_removes [of "itineraries st" d]
  by (auto simp add: itinerary_handler_def handle_delete_def findOne_def ObjectId_toString
      find_by_id_distinct may_delete_def findByIdAndDelete_def)

theorem delete_allowed_iff_witness:
  "itinerary_handler quiet (Some ''64b7f0a1c2d3e4f5a6b7c8d2'') ''DELETE'' ''64b7f0a1c2d3e4f5a6b7c9e1'' no_body demo
     = (Response 404 (Message ''Itinerary not found or you do not have permission''), demo)
   \<and> itinerary_handler quiet (Some ''64b7f0a1c2d3e4f5a6b7c8d3'') ''DELETE'' ''64b7f0a1c2d3e4f5a6b7c9e2'' no_body demo
     = (Response 404 (Message ''Itinerary not found or you do not have permission''), demo)
   \<and> itinerary_handler quiet (Some ''64b7f0a1c2d3e4f5a6b7c8d1'') ''DELETE'' ''64b7f0a1c2d3e4f5a6b7c9e1'' no_body demo
     = (Response 200 (Deleted ''Itinerary deleted successfully''), demo \<lparr> itineraries := [rome] \<rparr>)"
proof -
  have q: "quiet 0 = None" "quiet 1 = None" by (simp_all add: quiet_def)
  have dis: "distinct (map iid (itineraries demo))" by (simp add: demo_defs)
  have p: "paris \<in> set (itineraries demo)" and r: "rome \<in> set (itineraries demo)"
    by (simp_all add: demo_def)
  show ?thesis
    using delete_allowed_iff [of quiet demo paris "''64b7f0a1c2d3e4f5a6b7c8d2''" no_body, OF q dis p]
      delete_allowed_iff [of quiet demo rome "''64b7f0a1c2d3e4f5a6b7c8d3''" no_body, OF q dis r]
      delete_allowed_iff [of quiet demo paris "''64b7f0a1c2d3e4f5a6b7c8d1''" no_body, OF q dis p]
    by (simp add: paris_def rome_def demo_def)
qed

section \<open>Listing\<close>

text \<open>
  C4. An authenticated listing answers 200 with exactly the itineraries the requester owns
  or collaborates on, each as often as it is stored; a public itinerary of somebody else
  that does not name the requester as a collaborator is not listed.
\<close>

theorem list_owned_or_collaborated:
  assumes "throws 0 = None"
  shows "index_handler throws (Some u) ''GET'' fresh now b st =
           (Response 200 (DataList (map (populate st) (listing u st))), st)
         \<and> mset (listing u st) =
             filter_mset (\<lambda>d. userId d = ObjectId u \<or> ObjectId u \<in> set (collaborators d))
               (mset (itineraries st))
         \<and> (\<forall>d. isPublic d \<and> userId d \<noteq> ObjectId u \<and> ObjectId u \<notin> set (collaborators d)
               \<longrightarrow> d \<notin> set (listing u st))"
  using assms
  by (auto simp add: index_handler_def handle_list_def listing_def)

theorem list_owned_or_collaborated_witness:
  "index_handler quiet (Some ''64b7f0a1c2d3e4f5a6b7c8d3'') ''GET'' (ObjectId []) 0 no_body demo
     = (Response 200 (DataList []), demo)
   \<and> rome \<notin> set (listing ''64b7f0a1c2d3e4f5a6b7c8d3'' demo)
   \<and> index_handler quiet (Some ''64b7f0a1c2d3e4f5a6b7c8d2'') ''GET'' (ObjectId []) 0 no_body demo
     = (Response 200 (DataList [populate demo paris]), demo)"
proof -
  have q: "quiet 0 = None" by (simp add: quiet_def)
  have l1: "listing ''64b7f0a1c2d3e4f5a6b7c8d3'' demo = []"
    by (simp add: listing_def demo_def paris_def rome_def)
  have l2: "listing ''64b7f0a1c2d3e4f5a6b7c8d2'' demo = [paris]"
    by (simp add: listing_def demo_def paris_def rome_def)
  show ?thesis
    using list_owned_or_collaborated [of quiet "''64b7f0a1c2d3e4f5a6b7c8d3''" "ObjectId []" 0 no_body demo, OF q]
      list_owned_or_collaborated [of quiet "''64b7f0a1c2d3e4f5a6b7c8d2''" "ObjectId []" 0 no_body demo, OF q]
    by (simp add: l1 l2)
qed

section \<open>Adding a collaborator\<close>

lemma already_collaborator_iff: "already_collaborator cs c \<longleftrightarrow> user_id c \<in> set cs"
  by (auto simp: already_collaborator_def list_ex_iff toString_eq_iff)

lemma update_first_const_member:
  "d \<in> set ds \<Longrightarrow> distinct (map iid ds) \<Longrightarrow> iid d' = iid d \<Longrightarrow>
   d' \<in> set (update_first (iid d) (\<lambda>_. d') ds)"
  by (induction ds) (auto simp: image_iff)

lemma map_iid_update_const:
  "iid d' = i \<Longrightarrow> map iid (update_first i (\<lambda>_. d') ds) = map iid ds"
  by (induction ds) auto

lemma find_after_save:
  assumes "distinct (map iid ds)" and "d \<in> set ds" and "iid d' = iid d"
  shows "find (\<lambda>x. iid x = iid d \<and> P x) (update_first (iid d) (\<lambda>_. d') ds)
           = (if P d' then Some d' else None)"
proof -
  have "distinct (map iid (update_first (iid d) (\<lambda>_. d') ds))"
    using assms(1,3) by (simp add: map_iid_update_const)
  moreover have "d' \<in> set (update_first (iid d) (\<lambda>_. d') ds)"
    using assms by (simp add: update_first_const_member)
  ultimately have "find (\<lambda>x. iid x = iid d' \<and> P x) (update_first (iid d) (\<lambda>_. d') ds)
                     = (if P d' then Some d' else None)"
    by (rule find_by_id_distinct)
  then show ?thesis by (simp add: assms(3))
qed

lemma added_simps:
  "iid (added d c) = iid d" "userId (added d c) = userId d"
  "collaborators (added d c) = collaborators d @ [user_id c]"
  by (simp_all add: added_def)

lemma handle_add_owner:
  assumes "\<forall>n. throws n = None"
    and "distinct (map iid (itineraries st))"
    and "d \<in> set (itineraries st)"
    and "userId d = ObjectId u"
    and "e \<noteq> []"
  shows "collaborate_handler throws (Some u) ''POST'' (toString (iid d)) (Some e) cid st =
           (case find (\<lambda>x. email x = toLowerCase e) (users st) of
              None \<Rightarrow> (Response 404 (Message ''User not found''), st)
            | Some c \<Rightarrow>
                if user_id c = userId d
                then (Response 400 (Message ''You cannot add yourself as a collaborator''), st)
                else if user_id c \<in> set (collaborators d)
                then (Response 400 (Message ''User is already a collaborator''), st)
                else (let st' = st \<lparr> itineraries :=
                                  update_first (iid d) (\<lambda>_. added d c) (itineraries st) \<rparr>
                      in (Response 200 (Data (Some (populate st' (added d c)))), st')))"
proof -
  have t: "throws 0 = None" "throws (Suc 0) = None" "throws 2 = None" "throws 3 = None"
    using assms(1) by simp_all
  have f: "find (\<lambda>x. iid x = iid d \<and> userId x = ObjectId u) (itineraries st) = Some d"
    using find_by_id_distinct [OF assms(2,3), of "\<lambda>x. userId x = ObjectId u"] assms(4) by simp
  have g: "find (\<lambda>x. iid x = iid d) (update_first (iid d) (\<lambda>_. added d c) (itineraries st))
             = Some (added d c)" for c
    using find_after_save [OF assms(2,3), of "added d c" "\<lambda>x. True"] by (simp add: added_def)
  show ?thesis
    using assms(4,5)
    by (simp add: collaborate_handler_def handle_add_def findOne_def t f g ObjectId_toString
        already_collaborator_iff save_def reply_updated_def Let_def toString_eq_string
        added_def [symmetric] added_simps split: option.splits)
qed

text \<open>
  C5. An add-collaborator request of the owner: 404 "User not found" when no user has the
  email, which the query compares in lower case; 400 when the user found is the owner;
  400 "already a collaborator" when the user found is among the collaborators, with the
  store unchanged; otherwise the identifier is appended to the collaborators and saved. After a successful add, the same request
  answers 400 "already a collaborator" and changes nothing.
\<close>

theorem add_collaborator_cases:
  assumes "\<forall>n. throws n = None"
    and "distinct (map iid (itineraries st))"
    and "d \<in> set (itineraries st)"
    and "userId d = ObjectId u"
    and "e \<noteq> []"
  shows "collaborate_handler throws (Some u) ''POST'' (toString (iid d)) (Some e) cid st =
           (case find (\<lambda>x. email x = toLowerCase e) (users st) of
              None \<Rightarrow> (Response 404 (Message ''User not found''), st)
            | Some c \<Rightarrow>
                if user_id c = userId d
                then (Response 400 (Message ''You cannot add yourself as a collaborator''), st)
                else if user_id c \<in> set (collaborators d)
                then (Response 400 (Message ''User is already a collaborator''), st)
                else (let st' = st \<lparr> itineraries :=
                                  update_first (iid d) (\<lambda>_. added d c) (itineraries st) \<rparr>
                      in (Response 200 (Data (Some (populate st' (added d c)))), st')))
         \<and> (let (r, st') = collaborate_handler throws (Some u) ''POST'' (toString (iid d)) (Some e) cid st
            in status r = 200 \<longrightarrow>
               collaborate_handler throws (Some u) ''POST'' (toString (iid d)) (Some e) cid st'
                 = (Response 400 (Message ''User is already a collaborator''), st'))"
proof (rule conjI)
  show "collaborate_handler throws (Some u) ''POST'' (toString (iid d)) (Some e) cid st =
           (case find (\<lambda>x. email x = toLowerCase e) (users st) of
              None \<Rightarrow> (Response 404 (Message ''User not found''), st)
            | Some c \<Rightarrow>
                if user_id c = userId d
                then (Response 400 (Message ''You cannot add yourself as a collaborator''), st)
                else if user_id c \<in> set (collaborators d)
                then (Response 400 (Message ''User is already a collaborator''), st)
                else (let st' = st \<lparr> itineraries :=
                                  update_first (iid d) (\<lambda>_. added d c) (itineraries st) \<rparr>
                      in (Response 200 (Data (Some (populate st' (added d c)))), st')))"
    using assms by (rule handle_add_owner)
next
  let ?h = "\<lambda>s. collaborate_handler throws (Some u) ''POST'' (toString (iid d)) (Some e) cid s"
  show "let (r, st') = ?h st
        in status r = 200 \<longrightarrow> ?h st' = (Response 400 (Message ''User is already a collaborator''), st')"
  proof (cases "find (\<lambda>x. email x = toLowerCase e) (users st)")
    case None
    then show ?thesis using handle_add_owner [OF assms, of cid] by simp
  next
    case (Some c)
    show ?thesis
    proof (cases "user_id c = userId d \<or> user_id c \<in> set (collaborators d)")
      case True
      then show ?thesis using handle_add_owner [OF assms, of cid] Some by auto
    next
      case False
      define st' where "st' = st \<lparr> itineraries := update_first (iid d) (\<lambda>_. added d c) (itineraries st) \<rparr>"
      have first: "?h st = (Response 200 (Data (Some (populate st' (added d c)))), st')"
        using handle_add_owner [OF assms, of cid] Some False by (simp add: st'_def Let_def)
      have dis: "distinct (map iid (itineraries st'))"
        using assms(2) by (simp add: st'_def map_iid_update_const added_def)
      have mem: "added d c \<in> set (itineraries st')"
        using assms(2,3) by (simp add: st'_def update_first_const_member added_def)
      have own: "userId (added d c) = ObjectId u"
        using assms(4) by (simp add: added_def)
      have us: "users st' = users st" by (simp add: st'_def)
      have "?h st' = (Response 400 (Message ''User is already a collaborator''), st')"
        using handle_add_owner [OF assms(1) dis mem own assms(5), of cid] Some False
        by (simp add: us added_def)
      with first show ?thesis by simp
    qed
  qed
qed

theorem add_collaborator_cases_witness:
  "collaborate_handler quiet (Some ''64b7f0a1c2d3e4f5a6b7c8d1'') ''POST'' ''64b7f0a1c2d3e4f5a6b7c9e1''
       (Some ''Nobody@Example.com'') None demo
     = (Response 404 (Message ''User not found''), demo)
   \<and> collaborate_handler quiet (Some ''64b7f0a1c2d3e4f5a6b7c8d1'') ''POST'' ''64b7f0a1c2d3e4f5a6b7c9e1''
       (Some ''alice@example.com'') None demo
     = (Response 400 (Message ''You cannot add yourself as a collaborator''), demo)
   \<and> collaborate_handler quiet (Some ''64b7f0a1c2d3e4f5a6b7c8d1'') ''POST'' ''64b7f0a1c2d3e4f5a6b7c9e1''
       (Some ''Bob@Example.com'') None demo
     = (Response 400 (Message ''User is already a collaborator''), demo)
   \<and> snd (collaborate_handler quiet (Some ''64b7f0a1c2d3e4f5a6b7c8d1'') ''POST'' ''64b7f0a1c2d3e4f5a6b7c9e1''
       (Some ''CAROL@EXAMPLE.COM'') None demo)
     = demo \<lparr> itineraries := [added paris carol, rome] \<rparr>"
proof -
  have q: "\<forall>n. quiet n = None" by (simp add: quiet_def)
  have dis: "distinct (map iid (itineraries demo))" by (simp add: demo_defs)
  have p: "paris \<in> set (itineraries demo)" by (simp add: demo_def)
  have o: "userId paris = ObjectId ''64b7f0a1c2d3e4f5a6b7c8d1''" by (simp add: paris_def)
  have i: "toString (iid paris) = ''64b7f0a1c2d3e4f5a6b7c9e1''" by (simp add: paris_def)
  have u: "users demo = [alice, bob, carol]" by (simp add: demo_def)
  have e: "email alice = ''alice@example.com''" "email bob = ''bob@example.com''"
    "email carol = ''carol@example.com''"
    by (simp_all add: alice_def bob_def carol_def)
  have ids: "user_id alice = userId paris" "user_id bob \<noteq> userId paris"
    "user_id carol \<noteq> userId paris" "collaborators paris = [user_id bob]"
    "user_id carol \<noteq> user_id bob"
    by (simp_all add: alice_def bob_def carol_def paris_def)
  have its: "itineraries demo = [paris, rome]" by (simp add: demo_def)
  have low: "toLowerCase ''Nobody@Example.com'' = ''nobody@example.com''"
    "toLowerCase ''alice@example.com'' = ''alice@example.com''"
    "toLowerCase ''Bob@Example.com'' = ''bob@example.com''"
    "toLowerCase ''CAROL@EXAMPLE.COM'' = ''carol@example.com''"
    by code_simp+
  have ne: "iid paris \<noteq> iid rome" by (simp add: paris_def rome_def)
  show ?thesis
    using add_collaborator_cases [of quiet demo paris "''64b7f0a1c2d3e4f5a6b7c8d1''" "''Nobody@Example.com''" None, OF q dis p o]
      add_collaborator_cases [of quiet demo paris "''64b7f0a1c2d3e4f5a6b7c8d1''" "''alice@example.com''" None, OF q dis p o]
      add_collaborator_cases [of quiet demo paris "''64b7f0a1c2d3e4f5a6b7c8d1''" "''Bob@Example.com''" None, OF q dis p o]
      add_collaborator_cases [of quiet demo paris "''64b7f0a1c2d3e4f5a6b7c8d1''" "''CAROL@EXAMPLE.COM''" None, OF q dis p o]
    by (simp add: i u e ids its low Let_def)
qed

section \<open>Facts about JSON.parse\<close>

lemma length_skip_ws: "length (skip_ws s) \<le> length s"
  by (simp add: skip_ws_def length_dropWhile_le)

lemma skip_ws_Cons_le: "skip_ws s = x # r \<Longrightarrow> Suc (length r) \<le> length s"
  using length_skip_ws [of s] by simp

lemma length_snd_digits: "length (snd (digits s)) \<le> length s"
  by (simp add: digits_def length_dropWhile_le)

lemma sign_part_le: "sign_part s = (a, r) \<Longrightarrow> length r \<le> length s"
  by (auto simp: sign_part_def split: list.splits if_splits)

lemma int_part_less: "int_part s = Some (a, r) \<Longrightarrow> length r < length s"
  by (auto simp: int_part_def digits_def less_Suc_eq_le length_dropWhile_le
      split: list.splits if_splits)

lemma frac_part_le: "frac_part s = Some (a, r) \<Longrightarrow> length r \<le> length s"
  using length_snd_digits [of "tl s"]
  by (auto simp: frac_part_def split: list.splits if_splits)

lemma exp_sign_le: "exp_sign s = (a, r) \<Longrightarrow> length r \<le> length s"
  by (auto simp: exp_sign_def split: list.splits if_splits)

lemma exp_part_le: "exp_part s = Some (a, r) \<Longrightarrow> length r \<le> length s"
proof (cases s)
  case Nil
  assume "exp_part s = Some (a, r)"
  with Nil show ?thesis by (simp add: exp_part_def)
next
  case (Cons c t)
  assume h: "exp_part s = Some (a, r)"
  obtain sg t' where e: "exp_sign t = (sg, t')" by (cases "exp_sign t")
  have "length t' \<le> length t" using e by (rule exp_sign_le)
  moreover have "length (snd (digits t')) \<le> length t'" by (rule length_snd_digits)
  ultimately show ?thesis
    using h Cons e by (auto simp: exp_part_def split: if_splits)
qed

lemma number_shorter: "number s = Some (l, r) \<Longrightarrow> length r < length s"
proof -
  assume h: "number s = Some (l, r)"
  obtain sg s1 where a: "sign_part s = (sg, s1)" by (cases "sign_part s")
  from h a obtain ip s2 where b: "int_part s1 = Some (ip, s2)"
    by (auto simp: number_def split: option.splits)
  from h a b obtain fp s3 where c: "frac_part s2 = Some (fp, s3)"
    by (auto simp: number_def split: option.splits)
  from h a b c obtain ep s4 where d: "exp_part s3 = Some (ep, s4)"
    by (auto simp: number_def split: option.splits)
  from h a b c d have "r = s4" by (simp add: number_def)
  with sign_part_le [OF a] int_part_less [OF b] frac_part_le [OF c] exp_part_le [OF d]
  show ?thesis by simp
qed

lemma string_body_shorter: "string_body s acc = Some (u, r) \<Longrightarrow> length r < length s"
proof (induction s acc rule: string_body.induct)
  case (1 acc)
  then show ?case by simp
next
  case (2 c cs acc)
  show ?case
  proof (cases "c = CHR 0x22")
    case True
    with "2.prems" show ?thesis by simp
  next
    case quote: False
    show ?thesis
    proof (cases "c = CHR 0x5C")
      case False
      with quote "2.prems" have "string_body cs (acc @ [of_char c]) = Some (u, r)"
        and "\<not> (of_char c :: nat) < 32"
        by (auto split: if_splits)
      with "2.IH"(3) [OF quote False] have "length r < length cs" by simp
      then show ?thesis by simp
    next
      case True
      with quote "2.prems" obtain e t where cs: "cs = e # t"
        by (cases cs) auto
      show ?thesis
      proof (cases "e = CHR ''u''")
        case u: True
        with quote True cs "2.prems" obtain k where k: "unicode_escape (take 4 t) = Some k"
          and b: "string_body (drop 4 t) (acc @ [k]) = Some (u, r)"
          by (auto split: option.splits)
        from "2.IH"(1) [OF quote True cs u k b] have "length r < length (drop 4 t)" .
        with cs show ?thesis by simp
      next
        case nu: False
        with quote True cs "2.prems" obtain k where k: "escape e = Some k"
          and b: "string_body t (acc @ [k]) = Some (u, r)"
          by (auto split: option.splits)
        from "2.IH"(2) [OF quote True cs nu k b] have "length r < length t" .
        with cs show ?thesis by simp
      qed
    qed
  qed
qed

lemma scalar_shorter: "scalar s = Some (v, r) \<Longrightarrow> length r < length s"
  by (auto simp: scalar_def split: list.splits if_splits
      dest: string_body_shorter number_shorter)

lemma parsed_shorter_all:
  "(\<forall>s v r. json_value n s = Parsed v r \<longrightarrow> length r < length s) \<and>
   (\<forall>s acc vs r. elements n s acc = Parsed vs r \<longrightarrow> length r < length s) \<and>
   (\<forall>s acc kvs r. members n s acc = Parsed kvs r \<longrightarrow> length r < length s)"
proof (induction n)
  case 0
  show ?case by simp
next
  case (Suc n)
  have V: "length r < length s" if "json_value n s = Parsed v r" for s v r
    using Suc that by blast
  have E: "length r < length s" if "elements n s acc = Parsed vs r" for s acc vs r
    using Suc that by blast
  have M: "length r < length s" if "members n s acc = Parsed kvs r" for s acc kvs r
    using Suc that by blast
  have v: "length r < length s" if h: "json_value (Suc n) s = Parsed v r" for s v r
  proof (cases s)
    case Nil
    with h show ?thesis by simp
  next
    case (Cons c cs)
    show ?thesis
    proof (cases "c = CHR ''{''")
      case True
      with h Cons obtain x t where sk: "skip_ws cs = x # t"
        by (cases "skip_ws cs") auto
      show ?thesis
      proof (cases "x = CHR ''}''")
        case True
        with h Cons \<open>c = CHR ''{''\<close> sk have "r = t" by simp
        with skip_ws_Cons_le [OF sk] Cons show ?thesis by simp
      next
        case False
        with h Cons \<open>c = CHR ''{''\<close> sk obtain kvs where "members n (x # t) [] = Parsed kvs r"
          by (auto split: parsed.splits)
        from M [OF this] skip_ws_Cons_le [OF sk] Cons show ?thesis by simp
      qed
    next
      case nobj: False
      show ?thesis
      proof (cases "c = CHR ''[''")
        case True
        with h Cons obtain x t where sk: "skip_ws cs = x # t"
          by (cases "skip_ws cs") auto
        show ?thesis
        proof (cases "x = CHR '']''")
          case True
          with h Cons \<open>c = CHR ''[''\<close> sk have "r = t" by simp
          with skip_ws_Cons_le [OF sk] Cons show ?thesis by simp
        next
          case False
          with h Cons \<open>c = CHR ''[''\<close> sk obtain vs where "elements n (x # t) [] = Parsed vs r"
            by (auto split: parsed.splits)
          from E [OF this] skip_ws_Cons_le [OF sk] Cons show ?thesis by simp
        qed
      next
        case False
        with nobj h Cons have "scalar s = Some (v, r)"
          by (auto split: option.splits)
        then show ?thesis by (rule scalar_shorter)
      qed
    qed
  qed
  have e: "length r < length s" if h: "elements (Suc n) s acc = Parsed vs r" for s acc vs r
  proof -
    from h obtain w t where val: "json_value n s = Parsed w t"
      by (auto split: parsed.splits)
    from h val obtain x t' where sk: "skip_ws t = x # t'"
      by (cases "skip_ws t") auto
    have lt: "length t' < length s"
      using V [OF val] skip_ws_Cons_le [OF sk] by simp
    show ?thesis
    proof (cases "x = CHR '',''")
      case True
      with h val sk have "elements n (skip_ws t') (acc @ [w]) = Parsed vs r" by simp
      from E [OF this] length_skip_ws [of t'] lt show ?thesis by simp
    next
      case False
      with h val sk have "r = t'" by (auto split: if_splits)
      with lt show ?thesis by simp
    qed
  qed
  have m: "length r < length s" if h: "members (Suc n) s acc = Parsed kvs r" for s acc kvs r
  proof (cases s)
    case Nil
    with h show ?thesis by simp
  next
    case (Cons c cs)
    with h have q: "c = CHR 0x22" by (auto split: if_splits)
    with h Cons obtain k t where sb: "string_body cs [] = Some (k, t)"
      by (auto split: option.splits)
    with h Cons q obtain x t1 where sk1: "skip_ws t = x # t1"
      by (cases "skip_ws t") auto
    with h Cons q sb have colon: "x = CHR '':''" by (auto split: if_splits)
    with h Cons q sb sk1 obtain w t2 where val: "json_value n (skip_ws t1) = Parsed w t2"
      by (auto split: parsed.splits)
    with h Cons q sb sk1 colon obtain y t3 where sk3: "skip_ws t2 = y # t3"
      by (cases "skip_ws t2") auto
    have lt: "length t3 < length s"
      using string_body_shorter [OF sb] skip_ws_Cons_le [OF sk1] V [OF val]
        length_skip_ws [of t1] skip_ws_Cons_le [OF sk3] Cons by simp
    show ?thesis
    proof (cases "y = CHR '',''")
      case True
      with h Cons q sb sk1 colon val sk3
      have "members n (skip_ws t3) (acc @ [(k, w)]) = Parsed kvs r" by simp
      from M [OF this] length_skip_ws [of t3] lt show ?thesis by simp
    next
      case False
      with h Cons q sb sk1 colon val sk3 have "r = t3" by (auto split: if_splits)
      with lt show ?thesis by simp
    qed
  qed
  from v e m show ?case by blast
qed

lemma value_shorter: "json_value n s = Parsed v r \<Longrightarrow> length r < length s"
  using parsed_shorter_all [of n] by blast

lemma fuel_suffices_all:
  "(\<forall>s. 2 * length s < n \<longrightarrow> json_value n s \<noteq> Exhausted) \<and>
   (\<forall>s acc. 2 * length s + 1 < n \<longrightarrow> elements n s acc \<noteq> Exhausted) \<and>
   (\<forall>s acc. 2 * length s + 1 < n \<longrightarrow> members n s acc \<noteq> Exhausted)"
proof (induction n)
  case 0
  show ?case by simp
next
  case (Suc n)
  have V: "json_value n s \<noteq> Exhausted" if "2 * length s < n" for s
    using Suc that by blast
  have E: "elements n s acc \<noteq> Exhausted" if "2 * length s + 1 < n" for s acc
    using Suc that by blast
  have M: "members n s acc \<noteq> Exhausted" if "2 * length s + 1 < n" for s acc
    using Suc that by blast
  have v: "json_value (Suc n) s \<noteq> Exhausted" if h: "2 * length s < Suc n" for s
  proof (cases s)
    case Nil
    then show ?thesis by simp
  next
    case (Cons c cs)
    have inner: "2 * length t + 1 < n" if "skip_ws cs = t" for t
      using length_skip_ws [of cs] that h Cons by auto
    show ?thesis
      using Cons M [OF inner] E [OF inner]
      by (auto split: list.splits parsed.splits option.splits)
  qed
  have e: "elements (Suc n) s acc \<noteq> Exhausted" if h: "2 * length s + 1 < Suc n" for s acc
  proof (cases "json_value n s")
    case (Parsed w t)
    have "elements n (skip_ws t') (acc @ [w]) \<noteq> Exhausted" if "skip_ws t = x # t'" for x t'
    proof (rule E)
      show "2 * length (skip_ws t') + 1 < n"
        using value_shorter [OF Parsed] skip_ws_Cons_le [OF that] length_skip_ws [of t'] h
        by simp
    qed
    with Parsed show ?thesis by (auto split: list.splits)
  next
    case Syntax
    then show ?thesis by simp
  next
    case Exhausted
    with V [of s] h show ?thesis by simp
  qed
  have m: "members (Suc n) s acc \<noteq> Exhausted" if h: "2 * length s + 1 < Suc n" for s acc
  proof (cases s)
    case Nil
    then show ?thesis by simp
  next
    case (Cons c cs)
    have step: "(case json_value n (skip_ws t1) of
                   Parsed v r2 \<Rightarrow>
                     (case skip_ws r2 of
                        [] \<Rightarrow> Syntax
                      | y # r3 \<Rightarrow>
                          if y = CHR '','' then members n (skip_ws r3) (acc @ [(k, v)])
                          else if y = CHR ''}'' then Parsed (acc @ [(k, v)]) r3
                          else Syntax)
                 | Syntax \<Rightarrow> Syntax
                 | Exhausted \<Rightarrow> Exhausted) \<noteq> Exhausted"
      if sb: "string_body cs [] = Some (k, t)" and sk: "skip_ws t = x # t1" for k t x t1
    proof -
      have l1: "length (skip_ws t1) < length cs"
        using string_body_shorter [OF sb] skip_ws_Cons_le [OF sk] length_skip_ws [of t1] by simp
      show ?thesis
      proof (cases "json_value n (skip_ws t1)")
        case (Parsed w t2)
        have "members n (skip_ws t3) (acc @ [(k, w)]) \<noteq> Exhausted" if "skip_ws t2 = y # t3" for y t3
        proof (rule M)
          show "2 * length (skip_ws t3) + 1 < n"
            using value_shorter [OF Parsed] skip_ws_Cons_le [OF that] length_skip_ws [of t3] l1 h Cons
            by simp
        qed
        with Parsed show ?thesis by (auto split: list.splits)
      next
        case Syntax
        then show ?thesis by simp
      next
        case Exhausted
        moreover have "2 * length (skip_ws t1) < n" using l1 h Cons by simp
        ultimately show ?thesis using V by blast
      qed
    qed
    show ?thesis
      using Cons step by (auto split: list.splits option.splits)
  qed
  from v e m show ?case by blast
qed

lemma value_fuel: "2 * length s < n \<Longrightarrow> json_value n s \<noteq> Exhausted"
  using fuel_suffices_all [of n] by blast

lemma JSON_parse_fuel: "json_value (2 * length s + 1) (skip_ws s) \<noteq> Exhausted"
  using length_skip_ws [of s] by (intro value_fuel) simp

section \<open>The membership checks\<close>

lemma expand_id:
  "expand us i = Some c \<Longrightarrow> \<exists>n e. c = Expanded (Some (toString i)) n e"
  by (auto simp: expand_def split: option.splits dest!: find_Some_iff [THEN iffD1])

lemma expand_Some_iff: "(\<exists>c. expand us i = Some c) \<longleftrightarrow> i \<in> user_id ` set us"
proof -
  have "(\<exists>c. expand us i = Some c) \<longleftrightarrow> find (\<lambda>u. user_id u = i) us \<noteq> None"
    by (auto simp: expand_def split: option.splits)
  also have "\<dots> \<longleftrightarrow> i \<in> user_id ` set us"
    by (auto simp: find_None_iff)
  finally show ?thesis .
qed

lemma isCollaborator_populate:
  assumes "s \<noteq> ''[object Object]''"
  shows "isCollaborator (Some s) (Some (populate st d)) \<longleftrightarrow>
           ObjectId s \<in> set (collaborators d) \<and> ObjectId s \<in> user_id ` set (users st)"
proof
  assume "isCollaborator (Some s) (Some (populate st d))"
  then obtain c where c: "c \<in> set (v_collaborators (populate st d))" and m: "same_user (Some s) c"
    by (auto simp: isCollaborator_def list_ex_iff)
  from c obtain i where i: "i \<in> set (collaborators d)" and e: "expand (users st) i = Some c"
    by (auto simp: populate_def map_filter_def)
  from expand_id [OF e] obtain n a where ce: "c = Expanded (Some (toString i)) n a" by auto
  with m assms have "toString i = s" by auto
  then have "i = ObjectId s" by (simp add: toString_eq_string)
  with i e expand_Some_iff [of "users st" i]
  show "ObjectId s \<in> set (collaborators d) \<and> ObjectId s \<in> user_id ` set (users st)" by auto
next
  assume h: "ObjectId s \<in> set (collaborators d) \<and> ObjectId s \<in> user_id ` set (users st)"
  with expand_Some_iff [of "users st" "ObjectId s"]
  obtain c where c: "expand (users st) (ObjectId s) = Some c" by auto
  from expand_id [OF c] obtain n a where ce: "c = Expanded (Some s) n a" by auto
  from h c have "c \<in> set (v_collaborators (populate st d))"
    by (force simp: populate_def map_filter_def)
  with ce show "isCollaborator (Some s) (Some (populate st d))"
    unfolding isCollaborator_def list_ex_iff by (auto intro!: bexI [of _ c])
qed

text \<open>
  C6 says that the equality check of the page returns true for a plain identifier and an
  expanded record of the same user. The owner check on the cited lines does not: Alice
  reads her own itinerary, the reply carries the owner as an expanded record with Alice's
  identifier, and \<open>isOwner\<close> is false, since \<open>toString()\<close> of the record is the text
  \<open>[object Object]\<close>. The collaborator check beside it looks into the record: it holds for
  Bob, whose entry is expanded too.
\<close>

theorem owner_check_fails_on_populated_reply:
  "itinerary_handler quiet (Some ''64b7f0a1c2d3e4f5a6b7c8d1'') ''GET'' ''64b7f0a1c2d3e4f5a6b7c9e1''
       no_body demo
     = (Response 200 (Data (Some (populate demo paris))), demo)
   \<and> v_userId (populate demo paris)
       = Some (Expanded (Some ''64b7f0a1c2d3e4f5a6b7c8d1'') ''Alice'' ''alice@example.com'')
   \<and> \<not> isOwner (Some ''64b7f0a1c2d3e4f5a6b7c8d1'') (Some (populate demo paris))
   \<and> v_collaborators (populate demo paris)
       = [Expanded (Some ''64b7f0a1c2d3e4f5a6b7c8d2'') ''Bob'' ''bob@example.com'']
   \<and> isCollaborator (Some ''64b7f0a1c2d3e4f5a6b7c8d2'') (Some (populate demo paris))"
  by code_simp

text \<open>
  The collaborator checks are exact. On the page, an entry matches the session's
  identifier when it is that identifier, plain or inside an expanded record, whatever the
  display fields are (and, for a record, when the session's identifier is the text
  \<open>[object Object]\<close>). In the add branch, a user is already a collaborator exactly when
  the user's identifier is stored. So the page recognises in a plain reply exactly the
  stored collaborators, and in a populated reply exactly those whose user record exists.
\<close>

theorem collaborator_checks_exact:
  "(same_user (Some s) (Reference i) \<longleftrightarrow> i = s)
   \<and> (same_user (Some s) (Expanded (Some i) n e) \<longleftrightarrow> i = s \<or> s = ''[object Object]'')
   \<and> (isCollaborator sid (Some v) \<longleftrightarrow> (\<exists>c \<in> set (v_collaborators v). same_user sid c))
   \<and> (already_collaborator cs c \<longleftrightarrow> user_id c \<in> set cs)
   \<and> (isCollaborator (Some s) (Some (plain d)) \<longleftrightarrow> ObjectId s \<in> set (collaborators d))
   \<and> (s \<noteq> ''[object Object]'' \<longrightarrow>
        (isCollaborator (Some s) (Some (populate st d)) \<longleftrightarrow>
           ObjectId s \<in> set (collaborators d) \<and> ObjectId s \<in> user_id ` set (users st)))"
proof (intro conjI impI)
  show "same_user (Some s) (Reference i) \<longleftrightarrow> i = s" by simp
  show "same_user (Some s) (Expanded (Some i) n e) \<longleftrightarrow> i = s \<or> s = ''[object Object]''" by auto
  show "isCollaborator sid (Some v) \<longleftrightarrow> (\<exists>c \<in> set (v_collaborators v). same_user sid c)"
    by (simp add: isCollaborator_def list_ex_iff)
  show "already_collaborator cs c \<longleftrightarrow> user_id c \<in> set cs"
    by (rule already_collaborator_iff)
  show "isCollaborator (Some s) (Some (plain d)) \<longleftrightarrow> ObjectId s \<in> set (collaborators d)"
    by (auto simp: isCollaborator_def list_ex_iff plain_def toString_eq_string)
next
  assume "s \<noteq> ''[object Object]''"
  then show "isCollaborator (Some s) (Some (populate st d)) \<longleftrightarrow>
           ObjectId s \<in> set (collaborators d) \<and> ObjectId s \<in> user_id ` set (users st)"
    by (rule isCollaborator_populate)
qed

theorem collaborator_checks_exact_witness:
  "isCollaborator (Some ''64b7f0a1c2d3e4f5a6b7c8d2'') (Some (populate demo paris))
   \<and> \<not> isCollaborator (Some ''64b7f0a1c2d3e4f5a6b7c8d3'') (Some (populate demo paris))
   \<and> \<not> isCollaborator (Some ''64b7f0a1c2d3e4f5a6b7c8d1'') (Some (plain paris))
   \<and> already_collaborator (collaborators paris) bob
   \<and> \<not> already_collaborator (collaborators paris) carol"
proof -
  have a: "''64b7f0a1c2d3e4f5a6b7c8d2'' \<noteq> ''[object Object]''"
    "''64b7f0a1c2d3e4f5a6b7c8d3'' \<noteq> ''[object Object]''" by simp_all
  have b: "ObjectId ''64b7f0a1c2d3e4f5a6b7c8d2'' \<in> set (collaborators paris)"
    "ObjectId ''64b7f0a1c2d3e4f5a6b7c8d3'' \<notin> set (collaborators paris)"
    "ObjectId ''64b7f0a1c2d3e4f5a6b7c8d1'' \<notin> set (collaborators paris)"
    "user_id bob \<in> set (collaborators paris)" "user_id carol \<notin> set (collaborators paris)"
    by (simp_all add: paris_def bob_def carol_def)
  have c: "ObjectId ''64b7f0a1c2d3e4f5a6b7c8d2'' \<in> user_id ` set (users demo)"
    by (simp add: demo_def alice_def bob_def carol_def)
  have one: "isCollaborator (Some ''64b7f0a1c2d3e4f5a6b7c8d2'') (Some (populate demo paris))"
    using collaborator_checks_exact [where s = "''64b7f0a1c2d3e4f5a6b7c8d2''" and d = paris
        and st = demo] a(1) b(1) c by blast
  have two: "\<not> isCollaborator (Some ''64b7f0a1c2d3e4f5a6b7c8d3'') (Some (populate demo paris))"
    using collaborator_checks_exact [where s = "''64b7f0a1c2d3e4f5a6b7c8d3''" and d = paris
        and st = demo] a(2) b(2) by blast
  have three: "\<not> isCollaborator (Some ''64b7f0a1c2d3e4f5a6b7c8d1'') (Some (plain paris))"
    using collaborator_checks_exact [where s = "''64b7f0a1c2d3e4f5a6b7c8d1''" and d = paris] b(3)
    by blast
  have four: "already_collaborator (collaborators paris) bob"
    using collaborator_checks_exact [where cs = "collaborators paris" and c = bob] b(4) by blast
  have five: "\<not> already_collaborator (collaborators paris) carol"
    using collaborator_checks_exact [where cs = "collaborators paris" and c = carol] b(5) by blast
  from one two three four five show ?thesis by simp
qed

text \<open>
  The owner check in general: it calls \<open>toString()\<close> on the owner field of the reply. When
  the reply carries the owner in expanded form, as every populated reply of an existing
  owner does, the check holds only for a session identifier that is the text
  \<open>[object Object]\<close>; with a plain identifier it holds exactly for that identifier.
\<close>

theorem isOwner_expanded_owner:
  "(isOwner (Some i) (Some (it \<lparr> v_userId := Some (Expanded j n e) \<rparr>)) \<longleftrightarrow> i = ''[object Object]'')
   \<and> (isOwner (Some i) (Some (it \<lparr> v_userId := Some (Reference k) \<rparr>)) \<longleftrightarrow> i = k)
   \<and> (userId d \<in> user_id ` set (users st) \<longrightarrow>
        (isOwner (Some i) (Some (populate st d)) \<longleftrightarrow> i = ''[object Object]''))"
proof (intro conjI impI)
  show "isOwner (Some i) (Some (it \<lparr> v_userId := Some (Expanded j n e) \<rparr>)) \<longleftrightarrow> i = ''[object Object]''"
    by (auto simp: isOwner_def)
  show "isOwner (Some i) (Some (it \<lparr> v_userId := Some (Reference k) \<rparr>)) \<longleftrightarrow> i = k"
    by (auto simp: isOwner_def)
next
  assume "userId d \<in> user_id ` set (users st)"
  with expand_Some_iff [of "users st" "userId d"]
  obtain c where c: "expand (users st) (userId d) = Some c" by auto
  from expand_id [OF c] obtain n e where "c = Expanded (Some (toString (userId d))) n e" by auto
  with c show "isOwner (Some i) (Some (populate st d)) \<longleftrightarrow> i = ''[object Object]''"
    by (auto simp: isOwner_def populate_def)
qed

theorem isOwner_expanded_owner_witness:
  "\<not> isOwner (Some ''64b7f0a1c2d3e4f5a6b7c8d1'') (Some (populate demo paris))
   \<and> userId paris = ObjectId ''64b7f0a1c2d3e4f5a6b7c8d1''"
proof -
  have a: "userId paris \<in> user_id ` set (users demo)"
    by (simp add: demo_def paris_def alice_def)
  have b: "userId paris = ObjectId ''64b7f0a1c2d3e4f5a6b7c8d1''" by (simp add: paris_def)
  show ?thesis
    using isOwner_expanded_owner [where i = "''64b7f0a1c2d3e4f5a6b7c8d1''" and d = paris and st = demo] a b
    by simp
qed

section \<open>The parse fallback of the generation handler\<close>

lemma jsonMatch_span:
  assumes "jsonMatch t = Some m"
  shows "\<exists>pre post. t = pre @ m @ post \<and> CHR ''{'' \<notin> set pre \<and> CHR ''}'' \<notin> set post
           \<and> hd m = CHR ''{'' \<and> last m = CHR ''}''"
proof -
  define t' where "t' = dropWhile (\<lambda>c. c \<noteq> CHR ''{'') t"
  define pre where "pre = takeWhile (\<lambda>c. c \<noteq> CHR ''{'') t"
  define post where "post = rev (takeWhile (\<lambda>c. c \<noteq> CHR ''}'') (rev t'))"
  from assms have close: "CHR ''}'' \<in> set t'"
    and m: "m = rev (dropWhile (\<lambda>c. c \<noteq> CHR ''}'') (rev t'))"
    by (auto simp: jsonMatch_def Let_def t'_def split: if_splits)
  have t: "t = pre @ t'" by (simp add: pre_def t'_def)
  have "rev (takeWhile (\<lambda>c. c \<noteq> CHR ''}'') (rev t') @ dropWhile (\<lambda>c. c \<noteq> CHR ''}'') (rev t'))
          = m @ post"
    unfolding m post_def by (rule rev_append)
  then have t': "t' = m @ post" by (simp only: takeWhile_dropWhile_id rev_rev_ident)
  have ne: "dropWhile (\<lambda>c. c \<noteq> CHR ''}'') (rev t') \<noteq> []"
    using close by auto
  then have "hd (dropWhile (\<lambda>c. c \<noteq> CHR ''}'') (rev t')) = CHR ''}''"
    using hd_dropWhile [of "\<lambda>c. c \<noteq> CHR ''}''" "rev t'"] by simp
  with ne have last: "last m = CHR ''}''" by (simp add: m last_rev)
  from ne have mne: "m \<noteq> []" by (simp add: m)
  have "t' \<noteq> []" using close by auto
  then have "hd t' = CHR ''{''"
    using hd_dropWhile [of "\<lambda>c. c \<noteq> CHR ''{''" t] by (simp add: t'_def)
  with t' mne have hd: "hd m = CHR ''{''" by (cases m) auto
  have "CHR ''{'' \<notin> set pre"
    using set_takeWhileD [of "CHR ''{''" "\<lambda>c. c \<noteq> CHR ''{''" t] by (auto simp: pre_def)
  moreover have "CHR ''}'' \<notin> set post"
    using set_takeWhileD [of "CHR ''}''" "\<lambda>c. c \<noteq> CHR ''}''" "rev t'"] by (auto simp: post_def)
  ultimately show ?thesis using t t' hd last by auto
qed

lemma dropWhile_keeps:
  "xs \<noteq> [] \<Longrightarrow> \<not> P (hd xs) \<Longrightarrow> dropWhile P xs = xs"
  by (cases xs) auto

lemma jsonMatch_whole:
  assumes "hd j = CHR ''{''" and "last j = CHR ''}''" and "j \<noteq> []"
  shows "jsonMatch j = Some j"
proof -
  have d: "dropWhile (\<lambda>c. c \<noteq> CHR ''{'') j = j"
    using assms(1,3) by (intro dropWhile_keeps) simp_all
  have dr: "dropWhile (\<lambda>c. c \<noteq> CHR ''}'') (rev j) = rev j"
    using assms(2,3) by (intro dropWhile_keeps) (simp_all add: hd_rev)
  have "CHR ''}'' \<in> set j" using assms(2,3) last_in_set by metis
  with d dr show ?thesis by (simp add: jsonMatch_def Let_def)
qed

lemma remove_marker_skip:
  "hd m \<notin> set xs \<Longrightarrow> m \<noteq> [] \<Longrightarrow> remove_marker m (xs @ ys) = xs @ remove_marker m ys"
proof (induction xs)
  case Nil
  then show ?case by simp
next
  case (Cons x xs)
  then have "take (length m) ((x # xs) @ ys) \<noteq> m"
    by (cases m) auto
  with Cons show ?case by simp
qed

lemma trim_framed:
  assumes "j \<noteq> []" and "\<not> js_space (hd j)" and "\<not> js_space (last j)"
    and "\<forall>c \<in> set ws. js_space c"
  shows "trim (j @ ws) = j"
proof -
  have a: "dropWhile js_space (j @ ws) = j @ ws"
    using assms(1,2) by (intro dropWhile_keeps) simp_all
  have "dropWhile js_space (rev j) = rev j"
    using assms(1,3) by (intro dropWhile_keeps) (simp_all add: hd_rev)
  with assms(4) have "dropWhile js_space (rev ws @ rev j) = rev j"
    by (simp add: dropWhile_append)
  with a show ?thesis by (simp add: trim_def)
qed

lemma JSON_parse_backtick: "JSON_parse (CHR 0x60 # s) = None"
  by (simp add: JSON_parse_def skip_ws_def json_ws_def scalar_def digit_def)

lemma fenced_object:
  assumes p: "JSON_parse j = Some v"
    and h: "hd j = CHR ''{''" and l: "last j = CHR ''}''"
    and b: "CHR 0x60 \<notin> set j"
  shows "parse_payload (''```json'' @ [CHR 0x0A] @ j @ [CHR 0x0A] @ ''```'') = Inr v"
proof -
  have ne: "j \<noteq> []" using p by (auto simp: JSON_parse_def skip_ws_def)
  let ?raw = "''```json'' @ [CHR 0x0A] @ j @ [CHR 0x0A] @ ''```''"
  have direct: "JSON_parse ?raw = None"
    using JSON_parse_backtick [of "''``json'' @ [CHR 0x0A] @ j @ [CHR 0x0A] @ ''```''"] by simp
  have "remove_marker ''```json'' ?raw = remove_marker ''```json'' (j @ [CHR 0x0A] @ ''```'')"
    by (simp add: drop_newline_def)
  also have "\<dots> = j @ remove_marker ''```json'' ([CHR 0x0A] @ ''```'')"
    using b by (intro remove_marker_skip) simp_all
  also have "\<dots> = j @ [CHR 0x0A] @ ''```''" by simp
  finally have one: "remove_marker ''```json'' ?raw = j @ [CHR 0x0A] @ ''```''" .
  have "remove_marker ''```'' (j @ [CHR 0x0A] @ ''```'') = j @ remove_marker ''```'' ([CHR 0x0A] @ ''```'')"
    using b by (intro remove_marker_skip) simp_all
  also have "\<dots> = j @ [CHR 0x0A]" by (simp add: drop_newline_def)
  finally have two: "remove_marker ''```'' (j @ [CHR 0x0A] @ ''```'') = j @ [CHR 0x0A]" .
  have "trim (j @ [CHR 0x0A]) = j"
    using ne h l by (intro trim_framed) (simp_all add: js_space_def)
  with one two have c: "cleaned ?raw = j" by (simp add: cleaned_def)
  show ?thesis
    using direct c jsonMatch_whole [OF h l ne] p by (simp add: parse_payload_def)
qed

lemma trim_ends: "trim s = [] \<or> (\<not> js_space (hd (trim s)) \<and> \<not> js_space (last (trim s)))"
proof (cases "trim s = []")
  case True
  then show ?thesis by simp
next
  case False
  define t where "t = dropWhile js_space s"
  define u where "u = dropWhile js_space (rev t)"
  have ts: "trim s = rev u" by (simp add: trim_def t_def u_def)
  with False have une: "u \<noteq> []" by simp
  then have hu: "\<not> js_space (hd u)"
    unfolding u_def using hd_dropWhile by blast
  have "last (trim s) = hd u" using une by (simp add: ts last_rev)
  with hu have l: "\<not> js_space (last (trim s))" by simp
  have "rev t = takeWhile js_space (rev t) @ u" by (simp add: u_def)
  then have "last (rev t) = last u" using une by (metis last_appendR)
  moreover have tne: "t \<noteq> []" using une by (auto simp: u_def)
  ultimately have "hd t = last u" by (simp add: last_rev)
  moreover have "\<not> js_space (hd t)"
    unfolding t_def using tne hd_dropWhile t_def by blast
  moreover have "hd (trim s) = last u" using une by (simp add: ts hd_rev)
  ultimately have "\<not> js_space (hd (trim s))" by simp
  with l show ?thesis by simp
qed

lemma trim_frame:
  "\<exists>l r. s = l @ trim s @ r \<and> list_all js_space l \<and> list_all js_space r"
proof -
  define t where "t = dropWhile js_space s"
  define l where "l = takeWhile js_space s"
  define r where "r = rev (takeWhile js_space (rev t))"
  have "rev (takeWhile js_space (rev t) @ dropWhile js_space (rev t)) = trim s @ r"
    unfolding r_def trim_def t_def by (rule rev_append)
  then have "t = trim s @ r" by (simp only: takeWhile_dropWhile_id rev_rev_ident)
  moreover have "s = l @ t" by (simp add: l_def t_def)
  moreover have "list_all js_space l"
    using set_takeWhileD [of _ js_space s] by (auto simp: l_def list_all_iff)
  moreover have "list_all js_space r"
    using set_takeWhileD [of _ js_space "rev t"] by (auto simp: r_def list_all_iff)
  ultimately show ?thesis by auto
qed

lemma trim_snoc: "js_space c \<Longrightarrow> trim (s @ [c]) = trim s"
proof (cases "\<forall>x \<in> set s. js_space x")
  case True
  assume "js_space c"
  with True have a: "dropWhile js_space (s @ [c]) = []" and b: "dropWhile js_space s = []"
    by simp_all
  show ?thesis unfolding trim_def a b by (rule refl)
next
  case False
  assume c: "js_space c"
  from False have "dropWhile js_space (s @ [c]) = dropWhile js_space s @ [c]"
    by (auto simp: dropWhile_append)
  with c show ?thesis by (simp add: trim_def)
qed

lemma remove_marker_none: "hd m \<notin> set xs \<Longrightarrow> m \<noteq> [] \<Longrightarrow> remove_marker m xs = xs"
  using remove_marker_skip [of m xs "[]"] by simp

lemma cleaned_no_backtick: "CHR 0x60 \<notin> set raw \<Longrightarrow> cleaned raw = trim raw"
  by (simp add: cleaned_def remove_marker_none)

lemma set_drop_newline: "x \<in> set (drop_newline b) \<Longrightarrow> x \<in> set b"
  by (auto simp: drop_newline_def split: list.splits if_splits)

lemma cleaned_json_marker:
  assumes "CHR 0x60 \<notin> set a"
  shows "cleaned (a @ ''```json'' @ b) = cleaned (a @ drop_newline b)"
proof -
  have "remove_marker ''```json'' (a @ ''```json'' @ b) = a @ remove_marker ''```json'' (''```json'' @ b)"
    using assms by (intro remove_marker_skip) simp_all
  also have "remove_marker ''```json'' (''```json'' @ b) = remove_marker ''```json'' (drop_newline b)"
    by simp
  also have "a @ remove_marker ''```json'' (drop_newline b) = remove_marker ''```json'' (a @ drop_newline b)"
    using assms by (intro remove_marker_skip [symmetric]) simp_all
  finally show ?thesis by (simp add: cleaned_def)
qed

lemma cleaned_bare_marker:
  assumes a: "CHR 0x60 \<notin> set a" and b: "CHR 0x60 \<notin> set b" and j: "take 4 b \<noteq> ''json''"
  shows "cleaned (a @ ''```'' @ b) = trim (a @ drop_newline b)"
proof -
  have rb: "remove_marker ''```json'' b = b"
    using b by (intro remove_marker_none) simp_all
  have two: "remove_marker ''```json'' (CHR 0x60 # CHR 0x60 # b) = CHR 0x60 # CHR 0x60 # b"
    using b rb by (cases b) auto
  from j have j': "take (Suc (Suc (Suc (Suc 0)))) b \<noteq> ''json''"
    by (simp add: numeral_eq_Suc)
  have "remove_marker ''```json'' (CHR 0x60 # CHR 0x60 # CHR 0x60 # b)
          = CHR 0x60 # remove_marker ''```json'' (CHR 0x60 # CHR 0x60 # b)"
    using j' by simp
  then have "remove_marker ''```json'' (''```'' @ b) = ''```'' @ b"
    by (simp only: two append_Cons append_Nil)
  moreover have "remove_marker ''```json'' (a @ ''```'' @ b) = a @ remove_marker ''```json'' (''```'' @ b)"
    using a by (intro remove_marker_skip) simp_all
  ultimately have one: "remove_marker ''```json'' (a @ ''```'' @ b) = a @ ''```'' @ b" by simp
  have d: "CHR 0x60 \<notin> set (drop_newline b)" using b set_drop_newline by blast
  have "remove_marker ''```'' (a @ ''```'' @ b) = a @ remove_marker ''```'' (''```'' @ b)"
    using a by (intro remove_marker_skip) simp_all
  also have "remove_marker ''```'' (''```'' @ b) = remove_marker ''```'' (drop_newline b)"
    by simp
  also have "\<dots> = drop_newline b"
    using d by (intro remove_marker_none) simp_all
  finally show ?thesis using one by (simp add: cleaned_def)
qed

text \<open>
  C7, as amended. The handler makes two parse attempts in strict order. The direct parse
  of the raw text comes first, and its success is the result. When it fails, the text is
  cleaned and the span from the first opening brace to the last closing brace of the
  cleaned text is parsed: there is such a span exactly when a closing brace follows the
  first opening brace; the cleaned text is never parsed as a whole, and the span is not
  the first balanced one. The handler fails with a parse error exactly when the direct
  parse fails and either there is no such span or the span does not parse.

  Cleaning removes the markers and trims: the cleaned text neither begins nor ends with
  white space; trimming takes away white space at the two ends only; a text without a
  backtick is only trimmed; the first \<open>```json\<close> marker of a text goes away together with
  one line feed after it, and so does a bare \<open>```\<close> marker between two texts without
  backticks, when the text after it does not begin with \<open>json\<close>.

  For a text \<open>j\<close> that has no backtick, begins with an opening brace, ends with a closing
  brace and parses to \<open>v\<close>, the fenced block of \<open>j\<close> (the \<open>```json\<close> marker, a line feed,
  \<open>j\<close>, a line feed, the \<open>```\<close> marker) parses to \<open>v\<close>. The parser never runs out of fuel,
  so a failure is a syntax error.
\<close>

theorem parse_fallback_two_stages:
  "(\<forall>v. JSON_parse raw = Some v \<longrightarrow> parse_payload raw = Inr v)
   \<and> (JSON_parse raw = None \<longrightarrow>
        parse_payload raw =
          (case jsonMatch (cleaned raw) of
             None \<Rightarrow> Inl NoJsonFound
           | Some m \<Rightarrow> (case JSON_parse m of None \<Rightarrow> Inl ParseFailed | Some v \<Rightarrow> Inr v)))
   \<and> ((\<exists>f. parse_payload raw = Inl f) \<longleftrightarrow>
        JSON_parse raw = None \<and> (\<forall>m. jsonMatch (cleaned raw) = Some m \<longrightarrow> JSON_parse m = None))
   \<and> (\<forall>m. jsonMatch (cleaned raw) = Some m \<longrightarrow>
          (\<exists>pre post. cleaned raw = pre @ m @ post \<and> CHR ''{'' \<notin> set pre \<and> CHR ''}'' \<notin> set post
             \<and> hd m = CHR ''{'' \<and> last m = CHR ''}''))
   \<and> (jsonMatch (cleaned raw) = None \<longleftrightarrow>
        CHR ''}'' \<notin> set (dropWhile (\<lambda>c. c \<noteq> CHR ''{'') (cleaned raw)))
   \<and> (cleaned raw = [] \<or> (\<not> js_space (hd (cleaned raw)) \<and> \<not> js_space (last (cleaned raw))))
   \<and> (\<exists>l r. raw = l @ trim raw @ r \<and> list_all js_space l \<and> list_all js_space r)
   \<and> (CHR 0x60 \<notin> set raw \<longrightarrow> cleaned raw = trim raw)
   \<and> (\<forall>a b. CHR 0x60 \<notin> set a \<longrightarrow> cleaned (a @ ''```json'' @ b) = cleaned (a @ drop_newline b))
   \<and> (\<forall>a b. CHR 0x60 \<notin> set a \<and> CHR 0x60 \<notin> set b \<and> take 4 b \<noteq> ''json'' \<longrightarrow>
          cleaned (a @ ''```'' @ b) = trim (a @ drop_newline b))
   \<and> (\<forall>j v. JSON_parse j = Some v \<and> hd j = CHR ''{'' \<and> last j = CHR ''}'' \<and> CHR 0x60 \<notin> set j \<longrightarrow>
          parse_payload (''```json'' @ [CHR 0x0A] @ j @ [CHR 0x0A] @ ''```'') = Inr v)
   \<and> json_value (2 * length raw + 1) (skip_ws raw) \<noteq> Exhausted"
proof (intro conjI)
  show "\<forall>v. JSON_parse raw = Some v \<longrightarrow> parse_payload raw = Inr v"
    by (simp add: parse_payload_def)
next
  show "JSON_parse raw = None \<longrightarrow>
        parse_payload raw =
          (case jsonMatch (cleaned raw) of
             None \<Rightarrow> Inl NoJsonFound
           | Some m \<Rightarrow> (case JSON_parse m of None \<Rightarrow> Inl ParseFailed | Some v \<Rightarrow> Inr v))"
    by (simp add: parse_payload_def split: option.splits)
next
  show "(\<exists>f. parse_payload raw = Inl f) \<longleftrightarrow>
        JSON_parse raw = None \<and> (\<forall>m. jsonMatch (cleaned raw) = Some m \<longrightarrow> JSON_parse m = None)"
    by (auto simp: parse_payload_def split: option.splits)
next
  show "\<forall>m. jsonMatch (cleaned raw) = Some m \<longrightarrow>
          (\<exists>pre post. cleaned raw = pre @ m @ post \<and> CHR ''{'' \<notin> set pre \<and> CHR ''}'' \<notin> set post
             \<and> hd m = CHR ''{'' \<and> last m = CHR ''}'')"
    using jsonMatch_span by blast
next
  show "jsonMatch (cleaned raw) = None \<longleftrightarrow>
        CHR ''}'' \<notin> set (dropWhile (\<lambda>c. c \<noteq> CHR ''{'') (cleaned raw))"
    by (simp add: jsonMatch_def Let_def)
next
  show "cleaned raw = [] \<or> (\<not> js_space (hd (cleaned raw)) \<and> \<not> js_space (last (cleaned raw)))"
    unfolding cleaned_def by (rule trim_ends)
next
  show "\<exists>l r. raw = l @ trim raw @ r \<and> list_all js_space l \<and> list_all js_space r"
    by (rule trim_frame)
next
  show "CHR 0x60 \<notin> set raw \<longrightarrow> cleaned raw = trim raw"
    using cleaned_no_backtick by blast
next
  show "\<forall>a b. CHR 0x60 \<notin> set a \<longrightarrow> cleaned (a @ ''```json'' @ b) = cleaned (a @ drop_newline b)"
    using cleaned_json_marker by blast
next
  show "\<forall>a b. CHR 0x60 \<notin> set a \<and> CHR 0x60 \<notin> set b \<and> take 4 b \<noteq> ''json'' \<longrightarrow>
          cleaned (a @ ''```'' @ b) = trim (a @ drop_newline b)"
    using cleaned_bare_marker by blast
next
  show "\<forall>j v. JSON_parse j = Some v \<and> hd j = CHR ''{'' \<and> last j = CHR ''}'' \<and> CHR 0x60 \<notin> set j \<longrightarrow>
          parse_payload (''```json'' @ [CHR 0x0A] @ j @ [CHR 0x0A] @ ''```'') = Inr v"
    using fenced_object by blast
next
  show "json_value (2 * length raw + 1) (skip_ws raw) \<noteq> Exhausted" by (rule JSON_parse_fuel)
qed

theorem parse_fallback_two_stages_witness:
  "parse_payload fenced = Inr (JObj [(ustr ''days'', JArr [JObj [], JObj [], JObj []])])
   \<and> (\<exists>f. parse_payload remarked = Inl f)
   \<and> parse_payload split_fenced = Inr (JObj [(ustr ''days'', JArr [JObj []])])
   \<and> cleaned ('' '' @ one_day @ [CHR 0x0A]) = one_day
   \<and> cleaned (first_half @ ''```json'' @ [CHR 0x0A] @ second_half) = first_half @ second_half
   \<and> cleaned (first_half @ ''```'' @ [CHR 0x0A] @ second_half) = first_half @ second_half"
proof -
  let ?j = three_days
  let ?v = "JObj [(ustr ''days'', JArr [JObj [], JObj [], JObj []])]"
  let ?w = "JObj [(ustr ''days'', JArr [JObj []])]"
  let ?m = "first_half @ [CHR 0x0A] @ second_half"
  have p: "JSON_parse ?j = Some ?v" by code_simp
  have f: "JSON_parse ?j = Some ?v \<and> hd ?j = CHR ''{'' \<and> last ?j = CHR ''}'' \<and> CHR 0x60 \<notin> set ?j"
    using p by (simp add: three_days_def)
  have one: "parse_payload fenced = Inr ?v"
    using parse_fallback_two_stages [of fenced] f unfolding fenced_def by blast
  have d: "JSON_parse remarked = None" by code_simp
  have c: "jsonMatch (cleaned remarked) = Some (one_day @ '' Enjoy {Paris}'')" by code_simp
  have n: "JSON_parse (one_day @ '' Enjoy {Paris}'') = None" by code_simp
  have two: "\<exists>f. parse_payload remarked = Inl f"
    using parse_fallback_two_stages [of remarked] d c n by simp
  have sd: "JSON_parse split_fenced = None" by code_simp
  have sc: "jsonMatch (cleaned split_fenced) = Some ?m" by code_simp
  have sp: "JSON_parse ?m = Some ?w" by code_simp
  have "parse_payload split_fenced =
          (case jsonMatch (cleaned split_fenced) of
             None \<Rightarrow> Inl NoJsonFound
           | Some m \<Rightarrow> (case JSON_parse m of None \<Rightarrow> Inl ParseFailed | Some v \<Rightarrow> Inr v))"
    using parse_fallback_two_stages [of split_fenced] sd by blast
  then have three: "parse_payload split_fenced = Inr ?w" by (simp only: sc sp option.case)
  have nb: "CHR 0x60 \<notin> set ('' '' @ one_day @ [CHR 0x0A])" by (simp add: one_day_def)
  have t: "trim ('' '' @ one_day @ [CHR 0x0A]) = one_day" by code_simp
  have "cleaned ('' '' @ one_day @ [CHR 0x0A]) = trim ('' '' @ one_day @ [CHR 0x0A])"
    using parse_fallback_two_stages [of "'' '' @ one_day @ [CHR 0x0A]"] nb by blast
  then have four: "cleaned ('' '' @ one_day @ [CHR 0x0A]) = one_day" by (simp only: t)
  have na: "CHR 0x60 \<notin> set first_half" by (simp add: first_half_def)
  have ns: "CHR 0x60 \<notin> set ([CHR 0x0A] @ second_half)" by (simp add: second_half_def)
  have nj: "take 4 ([CHR 0x0A] @ second_half) \<noteq> ''json''" by (simp add: second_half_def)
  have dn: "drop_newline ([CHR 0x0A] @ second_half) = second_half" by (simp add: drop_newline_def)
  have cj: "cleaned (first_half @ second_half) = first_half @ second_half" by code_simp
  have tj: "trim (first_half @ second_half) = first_half @ second_half" by code_simp
  have "cleaned (first_half @ ''```json'' @ ([CHR 0x0A] @ second_half))
          = cleaned (first_half @ drop_newline ([CHR 0x0A] @ second_half))"
    using parse_fallback_two_stages [of fenced] na by blast
  then have five: "cleaned (first_half @ ''```json'' @ [CHR 0x0A] @ second_half) = first_half @ second_half"
    by (simp only: dn cj)
  have "cleaned (first_half @ ''```'' @ ([CHR 0x0A] @ second_half))
          = trim (first_half @ drop_newline ([CHR 0x0A] @ second_half))"
    using parse_fallback_two_stages [of fenced] na ns nj by blast
  then have six: "cleaned (first_half @ ''```'' @ [CHR 0x0A] @ second_half) = first_half @ second_half"
    by (simp only: dn tj)
  from one two three four five six show ?thesis by (intro conjI)
qed

text \<open>
  C7 as stated fails, at its second and at its third stage. For a fenced array that holds
  a payload, the second stage of the specification parses the stripped text, an array,
  which the validation that follows rejects; the handler never parses the stripped text,
  takes the span of braces inside it, an object, and answers 201. For a valid payload
  followed by a remark with braces, the third stage of the specification parses the first
  balanced span, while the handler parses the span up to the last closing brace, fails
  and answers 500.
\<close>

theorem three_stages_counterexample:
  "cleaned fenced_list = ''['' @ one_day @ '']''
   \<and> JSON_parse (cleaned fenced_list) = Some (JArr [JObj [(ustr ''days'', JArr [JObj []])]])
   \<and> spec_parse_payload fenced_list = Inr (JArr [JObj [(ustr ''days'', JArr [JObj []])]])
   \<and> validate (JArr [JObj [(ustr ''days'', JArr [JObj []])]]) = Inl MissingDays
   \<and> parse_payload fenced_list = Inr (JObj [(ustr ''days'', JArr [JObj []])])
   \<and> status (fst (generate_handler ''POST'' (Some ''64b7f0a1c2d3e4f5a6b7c8d1'') paris_request None
        (Inr fenced_list) quiet (ObjectId ''64b7f0a1c2d3e4f5a6b7c9e3'') 3 demo)) = 201
   \<and> parse_payload remarked = Inl ParseFailed
   \<and> jsonMatch (cleaned remarked) = Some (one_day @ '' Enjoy {Paris}'')
   \<and> balanced_span (cleaned remarked) = Some one_day
   \<and> spec_parse_payload remarked = Inr (JObj [(ustr ''days'', JArr [JObj []])])
   \<and> generate_handler ''POST'' (Some ''64b7f0a1c2d3e4f5a6b7c8d1'') paris_request None (Inr remarked)
        quiet (ObjectId ''64b7f0a1c2d3e4f5a6b7c9e3'') 3 demo
      = (Response 500 (Failed ParseFailed), demo)"
  by code_simp

section \<open>Creation without sharing\<close>

text \<open>
  C8 says that every created itinerary is stored with no collaborators and not public,
  whatever body the caller supplies. The manual creation does not keep it: Alice posts a
  complete body that names Bob as a collaborator and sets the public flag; the handler
  answers 201 and the new document, the third of the collection, is stored with Bob as
  collaborator and public. Only the owner is taken from the session.
\<close>

theorem manual_creation_stores_sharing:
  "b_collaborators shared_body = Some [ObjectId ''64b7f0a1c2d3e4f5a6b7c8d2'']
   \<and> b_isPublic shared_body = Some True
   \<and> status (fst (index_handler quiet (Some ''64b7f0a1c2d3e4f5a6b7c8d1'') ''POST''
         (ObjectId ''64b7f0a1c2d3e4f5a6b7c9e3'') 3 shared_body demo)) = 201
   \<and> map iid (itineraries (snd (index_handler quiet (Some ''64b7f0a1c2d3e4f5a6b7c8d1'') ''POST''
         (ObjectId ''64b7f0a1c2d3e4f5a6b7c9e3'') 3 shared_body demo)))
       = [ObjectId ''64b7f0a1c2d3e4f5a6b7c9e1'', ObjectId ''64b7f0a1c2d3e4f5a6b7c9e2'',
          ObjectId ''64b7f0a1c2d3e4f5a6b7c9e3'']
   \<and> userId (last (itineraries (snd (index_handler quiet (Some ''64b7f0a1c2d3e4f5a6b7c8d1'')
         ''POST'' (ObjectId ''64b7f0a1c2d3e4f5a6b7c9e3'') 3 shared_body demo))))
       = ObjectId ''64b7f0a1c2d3e4f5a6b7c8d1''
   \<and> collaborators (last (itineraries (snd (index_handler quiet (Some ''64b7f0a1c2d3e4f5a6b7c8d1'')
         ''POST'' (ObjectId ''64b7f0a1c2d3e4f5a6b7c9e3'') 3 shared_body demo))))
       = [ObjectId ''64b7f0a1c2d3e4f5a6b7c8d2'']
   \<and> isPublic (last (itineraries (snd (index_handler quiet (Some ''64b7f0a1c2d3e4f5a6b7c8d1'')
         ''POST'' (ObjectId ''64b7f0a1c2d3e4f5a6b7c9e3'') 3 shared_body demo))))"
  by (simp add: index_handler_def handle_create_def Itinerary_create_def Let_def shared_body_def
      quiet_def demo_def paris_def rome_def)

text \<open>
  The generation handler, for comparison: whenever it answers 201, it has stored exactly
  one new document, under the identifier the store assigned, owned by the session's user,
  with no collaborators and not public, whatever the request and the generated text are.
\<close>

theorem generated_without_sharing:
  "status (fst (generate_handler method session rq connect generated throws fresh now st)) = 201 \<longrightarrow>
     (let r = generate_handler method session rq connect generated throws fresh now st;
          d = last (itineraries (snd r))
      in fst r = Response 201 (Data (Some (plain d)))
         \<and> itineraries (snd r) = itineraries st @ [d]
         \<and> iid d = fresh
         \<and> session = Some (toString (userId d))
         \<and> collaborators d = [] \<and> \<not> isPublic d)"
  by (auto simp: generate_handler_def Itinerary_create_def new_itinerary_def Let_def
      split: if_splits option.splits sum.splits prod.splits)

theorem generated_without_sharing_witness:
  "status (fst (generate_handler ''POST'' (Some ''64b7f0a1c2d3e4f5a6b7c8d1'') paris_request None
       (Inr fenced) quiet (ObjectId ''64b7f0a1c2d3e4f5a6b7c9e3'') 3 demo)) = 201
   \<and> itineraries (snd (generate_handler ''POST'' (Some ''64b7f0a1c2d3e4f5a6b7c8d1'') paris_request
       None (Inr fenced) quiet (ObjectId ''64b7f0a1c2d3e4f5a6b7c9e3'') 3 demo))
      = itineraries demo @ [last (itineraries (snd (generate_handler ''POST''
          (Some ''64b7f0a1c2d3e4f5a6b7c8d1'') paris_request None (Inr fenced) quiet
          (ObjectId ''64b7f0a1c2d3e4f5a6b7c9e3'') 3 demo)))]
   \<and> iid (last (itineraries (snd (generate_handler ''POST'' (Some ''64b7f0a1c2d3e4f5a6b7c8d1'')
       paris_request None (Inr fenced) quiet (ObjectId ''64b7f0a1c2d3e4f5a6b7c9e3'') 3 demo))))
      = ObjectId ''64b7f0a1c2d3e4f5a6b7c9e3''
   \<and> collaborators (last (itineraries (snd (generate_handler ''POST'' (Some ''64b7f0a1c2d3e4f5a6b7c8d1'')
       paris_request None (Inr fenced) quiet (ObjectId ''64b7f0a1c2d3e4f5a6b7c9e3'') 3 demo)))) = []
   \<and> \<not> isPublic (last (itineraries (snd (generate_handler ''POST'' (Some ''64b7f0a1c2d3e4f5a6b7c8d1'')
       paris_request None (Inr fenced) quiet (ObjectId ''64b7f0a1c2d3e4f5a6b7c9e3'') 3 demo))))"
proof -
  have s: "status (fst (generate_handler ''POST'' (Some ''64b7f0a1c2d3e4f5a6b7c8d1'') paris_request None
       (Inr fenced) quiet (ObjectId ''64b7f0a1c2d3e4f5a6b7c9e3'') 3 demo)) = 201"
    by code_simp
  show ?thesis
    using generated_without_sharing [of "''POST''" "Some ''64b7f0a1c2d3e4f5a6b7c8d1''" paris_request None
        "Inr fenced" quiet "ObjectId ''64b7f0a1c2d3e4f5a6b7c9e3''" 3 demo] s
    by (simp add: Let_def)
qed

section \<open>The owner of a stored itinerary\<close>

text \<open>
  C9 says that the owner of a stored itinerary is unchanged by every successful update.
  The handler does not keep it: Bob, a collaborator of Alice's itinerary, sends a PUT
  whose body is \<open>{ userId: Bob }\<close>; the handler answers 200 and the stored owner is Bob.
\<close>

theorem put_changes_owner:
  "map userId (itineraries demo)
     = [ObjectId ''64b7f0a1c2d3e4f5a6b7c8d1'', ObjectId ''64b7f0a1c2d3e4f5a6b7c8d1'']
   \<and> status (fst (itinerary_handler quiet (Some ''64b7f0a1c2d3e4f5a6b7c8d2'') ''PUT''
         ''64b7f0a1c2d3e4f5a6b7c9e1'' takeover demo)) = 200
   \<and> map userId (itineraries (snd (itinerary_handler quiet (Some ''64b7f0a1c2d3e4f5a6b7c8d2'') ''PUT''
         ''64b7f0a1c2d3e4f5a6b7c9e1'' takeover demo)))
     = [ObjectId ''64b7f0a1c2d3e4f5a6b7c8d2'', ObjectId ''64b7f0a1c2d3e4f5a6b7c8d1'']"
  by (simp add: itinerary_handler_def handle_put_def findOne_def may_update_def
      findByIdAndUpdate_def Let_def apply_update_def demo_defs)

text \<open>
  C10. A manual creation stores one new itinerary whose owner is the session's user,
  whatever owner the body names.
\<close>

theorem manual_create_owner_is_session:
  assumes "throws 0 = None"
  shows "(let r = index_handler throws (Some u) ''POST'' fresh now b st;
              d = last (itineraries (snd r))
          in fst r = Response 201 (Data (Some (plain d)))
             \<and> itineraries (snd r) = itineraries st @ [d]
             \<and> users (snd r) = users st
             \<and> iid d = fresh
             \<and> userId d = ObjectId u)"
  using assms
  by (simp add: index_handler_def handle_create_def Itinerary_create_def Let_def)

theorem manual_create_owner_is_session_witness:
  "b_userId shared_body = Some (ObjectId ''64b7f0a1c2d3e4f5a6b7c8d2'')
   \<and> userId (last (itineraries (snd (index_handler quiet (Some ''64b7f0a1c2d3e4f5a6b7c8d3'') ''POST''
          (ObjectId ''64b7f0a1c2d3e4f5a6b7c9e3'') 3 shared_body demo))))
      = ObjectId ''64b7f0a1c2d3e4f5a6b7c8d3''"
proof -
  have q: "quiet 0 = None" by (simp add: quiet_def)
  have t: "b_userId shared_body = Some (ObjectId ''64b7f0a1c2d3e4f5a6b7c8d2'')"
    by (simp add: shared_body_def)
  show ?thesis
    using manual_create_owner_is_session [of quiet "''64b7f0a1c2d3e4f5a6b7c8d3''"
        "ObjectId ''64b7f0a1c2d3e4f5a6b7c9e3''" 3 shared_body demo, OF q] t
    by (simp add: Let_def)
qed

end
